theory Spec2Isabelle
  imports Main
begin

section \<open>Records and the merge of a local and a remote collection\<close>

text \<open>
  An entity is a flat JavaScript object whose members are JSON primitives; reading a member
  that is absent gives \<^verbatim>\<open>undefined\<close>, here \<^verbatim>\<open>None\<close>. JSON carries no \<^verbatim>\<open>NaN\<close>, so
  \<^verbatim>\<open>===\<close> and the membership test of a \<^verbatim>\<open>Set\<close> both are equality of values.
  Numbers are integers here: the code modelled compares and copies them and reads a time
  value from them, and never computes with a fraction.
\<close>

datatype jsval = JNull | JBool bool | JNum int | JStr string

type_synonym jsobj = "string \<rightharpoonup> jsval"

text \<open>
  JavaScript truthiness of a member read; \<^verbatim>\<open>None\<close> is \<^verbatim>\<open>undefined\<close>. \<^verbatim>\<open>orElse v d\<close> is
  \<^verbatim>\<open>v || d\<close>.
\<close>

definition truthy :: "jsval option \<Rightarrow> bool" where
  "truthy v =
     (case v of
        None \<Rightarrow> False
      | Some JNull \<Rightarrow> False
      | Some (JBool b) \<Rightarrow> b
      | Some (JNum n) \<Rightarrow> n \<noteq> 0
      | Some (JStr s) \<Rightarrow> s \<noteq> [])"

definition orElse :: "jsval option \<Rightarrow> jsval \<Rightarrow> jsval" where
  "orElse v d = (case v of None \<Rightarrow> d | Some x \<Rightarrow> if truthy (Some x) then x else d)"

text \<open>\<^verbatim>\<open>Array.prototype.findIndex\<close>; \<^verbatim>\<open>None\<close> is the result \<^verbatim>\<open>-1\<close>.\<close>

fun findIndex :: "('a \<Rightarrow> bool) \<Rightarrow> 'a list \<Rightarrow> nat option" where
  "findIndex P [] = None"
| "findIndex P (x # xs) = (if P x then Some 0 else map_option Suc (findIndex P xs))"

text \<open>
  \<^verbatim>\<open>mergeData\<close> of \<^verbatim>\<open>google_sheets.js\<close>. \<^verbatim>\<open>mergeItem\<close> is the callback of
  \<^verbatim>\<open>remoteData.forEach\<close>; \<^verbatim>\<open>localIds\<close> is computed once from \<^verbatim>\<open>localData\<close>, and
  \<^verbatim>\<open>{...a, ...b}\<close> is \<^term>\<open>a ++ b\<close>.
\<close>

definition mergeItem :: "jsval option set \<Rightarrow> string \<Rightarrow> jsobj list \<Rightarrow> jsobj \<Rightarrow> jsobj list" where
  "mergeItem localIds idField merged remoteItem =
     (if remoteItem idField \<notin> localIds then merged @ [remoteItem]
      else (case findIndex (\<lambda>item. item idField = remoteItem idField) merged of
              None \<Rightarrow> merged
            | Some index \<Rightarrow> merged[index := (merged ! index) ++ remoteItem]))"

definition mergeData :: "jsobj list \<Rightarrow> jsobj list \<Rightarrow> string \<Rightarrow> jsobj list" where
  "mergeData localData remoteData idField =
     (let merged = localData;
          localIds = set (map (\<lambda>item. item idField) localData)
      in foldl (mergeItem localIds idField) merged remoteData)"

text \<open>
  Two auxiliary functions describe the result: \<^verbatim>\<open>overwrite\<close> is the branch of
  \<^verbatim>\<open>mergeItem\<close> for an id that is present, and \<^verbatim>\<open>overlaid k rs ms\<close> lays every record of
  \<^verbatim>\<open>rs\<close> over the first record of \<^verbatim>\<open>ms\<close> that has its id.
\<close>

definition overwrite :: "string \<Rightarrow> jsobj list \<Rightarrow> jsobj \<Rightarrow> jsobj list" where
  "overwrite k merged r =
     (case findIndex (\<lambda>item. item k = r k) merged of
        None \<Rightarrow> merged
      | Some i \<Rightarrow> merged[i := (merged ! i) ++ r])"

fun overlaid :: "string \<Rightarrow> jsobj list \<Rightarrow> jsobj list \<Rightarrow> jsobj list" where
  "overlaid k rs [] = []"
| "overlaid k rs (m # ms) =
     foldl (++) m (filter (\<lambda>r. r k = m k) rs) # overlaid k (filter (\<lambda>r. r k \<noteq> m k) rs) ms"

section \<open>The client: \<^verbatim>\<open>google_sheets.js\<close>\<close>

subsection \<open>Configuration, requests and responses\<close>

text \<open>
  \<^verbatim>\<open>GOOGLE_CONFIG\<close> of \<^verbatim>\<open>google_sheets.js\<close>. The fields \<^verbatim>\<open>apiVersion\<close> and
  \<^verbatim>\<open>timeout\<close> are never read by the retry loop and are left out. An unconfigured
  deployment is the empty \<^verbatim>\<open>webAppUrl\<close> (the only falsy string).
\<close>

record config =
  webAppUrl :: string
  retryAttempts :: nat
  retryDelay :: nat

definition GOOGLE_CONFIG :: "string \<Rightarrow> config" where
  "GOOGLE_CONFIG deployment = \<lparr>webAppUrl = deployment, retryAttempts = 3, retryDelay = 1000\<rparr>"

datatype http_method = GET | POST | PUT | DELETE

record request =
  url :: string
  verb :: http_method
  body :: "jsobj option"

text \<open>
  The envelope returned by the backend: \<^verbatim>\<open>{status, message, error, data}\<close>. The member
  \<^verbatim>\<open>data\<close> is an array of records for a collection read and any other value otherwise.
\<close>

datatype payload = Rows "jsobj list" | Scalar jsval

record envelope =
  status :: "jsval option"
  message :: "jsval option"
  error :: "jsval option"
  data :: "payload option"

text \<open>
  What \<^verbatim>\<open>await fetch(url, options)\<close> followed by \<^verbatim>\<open>await response.json()\<close> can observe:
  the promise rejects (network, DNS, CORS, timeout), or it resolves with a status line and
  a body that either parses to an envelope or makes \<^verbatim>\<open>response.json()\<close> throw.
\<close>

datatype parsed = Malformed string | Json envelope

record response =
  http_status :: nat
  statusText :: string
  json :: parsed

datatype fetch_outcome = Rejected string | Resolved response

definition ok :: "response \<Rightarrow> bool" where
  "ok r = (200 \<le> http_status r \<and> http_status r \<le> 299)"

text \<open>
  The values the client throws. \<^verbatim>\<open>Undefined\<close> is the value of the uninitialised
  \<^verbatim>\<open>lastError\<close>, thrown when the loop body never ran.
\<close>

datatype js_error =
    NotConfigured
  | TransportError string
  | HttpError nat string
  | ParseError string
  | ApiError jsval
  | Undefined

subsection \<open>The browser state the client reads and writes\<close>

text \<open>
  \<^verbatim>\<open>APP\<close> says whether \<^verbatim>\<open>window.APP\<close> is defined; every storage access of
  \<^verbatim>\<open>google_sheets.js\<close> is guarded by it. \<^verbatim>\<open>localStorage\<close> holds one array of records
  per collection key and \<^verbatim>\<open>storedLastSync\<close> the entry \<^verbatim>\<open>lastSync\<close>;
  \<^verbatim>\<open>quotaExceeded\<close> makes \<^verbatim>\<open>localStorage.setItem\<close> throw, which \<^verbatim>\<open>saveToStorage\<close>
  catches. \<^verbatim>\<open>appState\<close> is \<^verbatim>\<open>window.APP.state\<close>. \<^verbatim>\<open>fetchLog\<close> and \<^verbatim>\<open>timerLog\<close> record
  every call of \<^verbatim>\<open>fetch\<close> and every \<^verbatim>\<open>setTimeout\<close> delay, in order.
\<close>

record world =
  isOnline :: bool
  lastSyncTime :: "nat option"
  APP :: bool
  localStorage :: "string \<rightharpoonup> jsobj list"
  storedLastSync :: "nat option"
  quotaExceeded :: bool
  appState :: "string \<rightharpoonup> jsobj list"
  fetchLog :: "request list"
  timerLog :: "nat list"

text \<open>A browser that is online, has loaded \<^verbatim>\<open>app.js\<close> and has nothing stored yet.\<close>

definition freshWorld :: world where
  "freshWorld =
     \<lparr>isOnline = True, lastSyncTime = None, APP = True, localStorage = Map.empty,
      storedLastSync = None, quotaExceeded = False, appState = Map.empty,
      fetchLog = [], timerLog = []\<rparr>"

definition saveToStorage :: "string \<Rightarrow> jsobj list \<Rightarrow> world \<Rightarrow> world" where
  "saveToStorage key records w =
     (if quotaExceeded w then w
      else w\<lparr>localStorage := (localStorage w)(key \<mapsto> records)\<rparr>)"

definition saveLastSync :: "nat \<Rightarrow> world \<Rightarrow> world" where
  "saveLastSync t w = (if quotaExceeded w then w else w\<lparr>storedLastSync := Some t\<rparr>)"

definition getFromStorage :: "world \<Rightarrow> string \<Rightarrow> jsobj list option" where
  "getFromStorage w key = localStorage w key"

definition setState :: "string \<Rightarrow> jsobj list \<Rightarrow> world \<Rightarrow> world" where
  "setState key records w = w\<lparr>appState := (appState w)(key \<mapsto> records)\<rparr>"

text \<open>\<^verbatim>\<open>window.APP ? window.APP.getFromStorage(key) || [] : []\<close>\<close>

definition storedOrEmpty :: "world \<Rightarrow> string \<Rightarrow> jsobj list" where
  "storedOrEmpty w key =
     (if APP w then (case getFromStorage w key of None \<Rightarrow> [] | Some records \<Rightarrow> records) else [])"

subsection \<open>Asynchronous functions as resumable tasks\<close>

text \<open>
  An \<^verbatim>\<open>async\<close> function runs synchronously up to an \<^verbatim>\<open>await\<close>, where it suspends until
  the awaited promise settles. A task is the tree of these suspensions: \<^verbatim>\<open>Fetch\<close> awaits
  \<^verbatim>\<open>fetch\<close> and the body, \<^verbatim>\<open>Sleep\<close> awaits a timer, \<^verbatim>\<open>Get\<close> and \<^verbatim>\<open>Upd\<close> read and
  write the browser state without suspending.
\<close>

datatype 'a task =
    Return 'a
  | Throw js_error
  | Fetch request "fetch_outcome \<Rightarrow> 'a task"
  | Sleep nat "'a task"
  | Get "world \<Rightarrow> 'a task"
  | Upd "world \<Rightarrow> world" "'a task"

text \<open>\<^verbatim>\<open>const x = await t; f(x)\<close>\<close>

primrec andThen :: "'a task \<Rightarrow> ('a \<Rightarrow> 'b task) \<Rightarrow> 'b task" where
  "andThen (Return x) f = f x"
| "andThen (Throw e) f = Throw e"
| "andThen (Fetch r k) f = Fetch r (\<lambda>out. andThen (k out) f)"
| "andThen (Sleep d t) f = Sleep d (andThen t f)"
| "andThen (Get k) f = Get (\<lambda>w. andThen (k w) f)"
| "andThen (Upd u t) f = Upd u (andThen t f)"

text \<open>\<^verbatim>\<open>try { t } catch (error) { h(error) }\<close>\<close>

primrec tryCatch :: "'a task \<Rightarrow> (js_error \<Rightarrow> 'a task) \<Rightarrow> 'a task" where
  "tryCatch (Return x) h = Return x"
| "tryCatch (Throw e) h = h e"
| "tryCatch (Fetch r k) h = Fetch r (\<lambda>out. tryCatch (k out) h)"
| "tryCatch (Sleep d t) h = Sleep d (tryCatch t h)"
| "tryCatch (Get k) h = Get (\<lambda>w. tryCatch (k w) h)"
| "tryCatch (Upd u t) h = Upd u (tryCatch t h)"

text \<open>
  Running a task to completion against a network: \<^verbatim>\<open>net n r\<close> is what the \<open>n\<close>-th call of
  \<^verbatim>\<open>fetch\<close> (counting from 0 over the whole log) observes for request \<open>r\<close>. Every task is a
  well-founded tree, so \<^verbatim>\<open>run\<close> is total: it returns the value or the thrown error.
\<close>

primrec run :: "'a task \<Rightarrow> (nat \<Rightarrow> request \<Rightarrow> fetch_outcome) \<Rightarrow> world \<Rightarrow> (js_error + 'a) \<times> world" where
  "run (Return x) net w = (Inr x, w)"
| "run (Throw e) net w = (Inl e, w)"
| "run (Fetch r k) net w =
     run (k (net (length (fetchLog w)) r)) net (w\<lparr>fetchLog := fetchLog w @ [r]\<rparr>)"
| "run (Sleep d t) net w = run t net (w\<lparr>timerLog := timerLog w @ [d]\<rparr>)"
| "run (Get k) net w = run (k w) net w"
| "run (Upd u t) net w = run t net (u w)"

text \<open>
  Calling an \<^verbatim>\<open>async\<close> function: the synchronous prefix runs, and at the first \<^verbatim>\<open>await\<close>
  of a \<^verbatim>\<open>fetch\<close> the request has been issued and the suspended task is returned to the
  caller. \<^verbatim>\<open>resume\<close> settles the pending \<^verbatim>\<open>fetch\<close> of a suspended task and runs it to its
  next suspension.
\<close>

primrec start :: "'a task \<Rightarrow> world \<Rightarrow> 'a task \<times> world" where
  "start (Return x) w = (Return x, w)"
| "start (Throw e) w = (Throw e, w)"
| "start (Fetch r k) w = (Fetch r k, w\<lparr>fetchLog := fetchLog w @ [r]\<rparr>)"
| "start (Sleep d t) w = (Sleep d t, w\<lparr>timerLog := timerLog w @ [d]\<rparr>)"
| "start (Get k) w = start (k w) w"
| "start (Upd u t) w = start t (u w)"

fun resume :: "'a task \<Rightarrow> fetch_outcome \<Rightarrow> world \<Rightarrow> 'a task \<times> world" where
  "resume (Fetch r k) out w = start (k out) w"
| "resume t out w = (t, w)"

text \<open>The request a suspended task is waiting for, if it waits for one.\<close>

fun awaiting :: "'a task \<Rightarrow> request option" where
  "awaiting (Fetch r k) = Some r"
| "awaiting t = None"

subsection \<open>\<^verbatim>\<open>makeApiRequest\<close>\<close>

text \<open>
  The file \<^verbatim>\<open>google_sheets.js\<close> holds several revisions of the client. Revision 1.0.0
  appends the endpoint to the deployment URL and sends the caller's verb; revision 1.0.4
  passes the action as a query parameter and only ever sends \<^verbatim>\<open>GET\<close>, or \<^verbatim>\<open>POST\<close> with a
  body. Their retry logic is the same.
\<close>

datatype revision = V1_0_0 | V1_0_4

definition buildRequest :: "revision \<Rightarrow> config \<Rightarrow> string \<Rightarrow> http_method \<Rightarrow> jsobj option \<Rightarrow> request" where
  "buildRequest rv cfg action method payload =
     (case rv of
        V1_0_0 \<Rightarrow>
          \<lparr>url = webAppUrl cfg @ action, verb = method,
           body = (if payload \<noteq> None \<and> (method = POST \<or> method = PUT) then payload else None)\<rparr>
      | V1_0_4 \<Rightarrow>
          (if method = POST \<and> payload \<noteq> None
           then \<lparr>url = webAppUrl cfg @ ''?action='' @ action, verb = POST, body = payload\<rparr>
           else if action \<noteq> ''''
           then \<lparr>url = webAppUrl cfg @ ''?action='' @ action, verb = GET, body = None\<rparr>
           else \<lparr>url = webAppUrl cfg, verb = GET, body = None\<rparr>))"

text \<open>
  The body of the \<^verbatim>\<open>try\<close> block once \<^verbatim>\<open>fetch\<close> has settled: \<^verbatim>\<open>Inl\<close> is the error thrown
  into the \<^verbatim>\<open>catch\<close>, \<^verbatim>\<open>Inr\<close> the result returned.
\<close>

definition settle :: "revision \<Rightarrow> fetch_outcome \<Rightarrow> js_error + envelope" where
  "settle rv out =
     (case out of
        Rejected reason \<Rightarrow> Inl (TransportError reason)
      | Resolved response \<Rightarrow>
          if \<not> ok response then Inl (HttpError (http_status response) (statusText response))
          else (case json response of
                  Malformed reason \<Rightarrow> Inl (ParseError reason)
                | Json result \<Rightarrow>
                    (case rv of
                       V1_0_0 \<Rightarrow>
                         (case error result of
                            None \<Rightarrow> Inr result
                          | Some e \<Rightarrow> if truthy (Some e) then Inl (ApiError e) else Inr result)
                     | V1_0_4 \<Rightarrow>
                         if status result = Some (JStr ''error'')
                         then Inl (ApiError (orElse (message result) (JStr ''Unknown API error'')))
                         else Inr result)))"

text \<open>
  \<^verbatim>\<open>for (let attempt = 1; attempt <= GOOGLE_CONFIG.retryAttempts; attempt++)\<close>, entered at
  \<^verbatim>\<open>attempt\<close> with the current \<^verbatim>\<open>lastError\<close>.
\<close>

function attempts :: "revision \<Rightarrow> config \<Rightarrow> request \<Rightarrow> nat \<Rightarrow> js_error \<Rightarrow> envelope task" where
  "attempts rv cfg req attempt lastError =
     (if attempt \<le> retryAttempts cfg then
        Fetch req (\<lambda>out.
          case settle rv out of
            Inr result \<Rightarrow> Return result
          | Inl e \<Rightarrow>
              if attempt < retryAttempts cfg
              then Sleep (retryDelay cfg * attempt) (attempts rv cfg req (attempt + 1) e)
              else attempts rv cfg req (attempt + 1) e)
      else Throw lastError)"
  by pat_completeness auto
termination
  by (relation "measure (\<lambda>(rv, cfg, req, attempt, lastError). retryAttempts cfg + 1 - attempt)") auto

declare attempts.simps [simp del]

definition makeApiRequest :: "revision \<Rightarrow> config \<Rightarrow> string \<Rightarrow> http_method \<Rightarrow> jsobj option \<Rightarrow> envelope task" where
  "makeApiRequest rv cfg action method payload =
     (if webAppUrl cfg = '''' then Throw NotConfigured
      else attempts rv cfg (buildRequest rv cfg action method payload) 1 Undefined)"

subsection \<open>Synchronisation\<close>

text \<open>
  The body shared by \<^verbatim>\<open>syncVehicles\<close>, \<^verbatim>\<open>syncMaintenanceRecords\<close>, \<^verbatim>\<open>syncReceipts\<close> and
  \<^verbatim>\<open>syncReminders\<close>: await the pull; if \<^verbatim>\<open>response.data\<close> is an array, merge it into the
  stored collection and write the result to storage and to \<^verbatim>\<open>window.APP.state\<close>. The
  \<^verbatim>\<open>catch\<close> block logs and rethrows.
\<close>

definition pullAndMerge :: "envelope task \<Rightarrow> string \<Rightarrow> string \<Rightarrow> unit task" where
  "pullAndMerge pull key idField =
     tryCatch
       (andThen pull (\<lambda>response.
          case data response of
            Some (Rows remote) \<Rightarrow>
              Get (\<lambda>w.
                let localData = storedOrEmpty w key;
                    merged = mergeData localData remote idField
                in if APP w
                   then Upd (saveToStorage key merged) (Upd (setState key merged) (Return ()))
                   else Return ())
          | _ \<Rightarrow> Return ()))
       Throw"

text \<open>Revision 1.0.4: \<^verbatim>\<open>makeApiRequest('vehicles')\<close>.\<close>

definition syncVehicles_v104 :: "config \<Rightarrow> unit task" where
  "syncVehicles_v104 cfg =
     pullAndMerge (makeApiRequest V1_0_4 cfg ''vehicles'' GET None) ''vehicles'' ''vehicle_id''"

text \<open>
  Revision 1.0.0:
  \<^verbatim>\<open>makeApiRequest(API_ENDPOINTS.vehicles + (lastSync ? `?since=${lastSync}` : ''))\<close>.
\<close>

definition digit :: "nat \<Rightarrow> char" where
  "digit d = char_of (48 + d)"

function showNat :: "nat \<Rightarrow> string" where
  "showNat n = (if n < 10 then [digit n] else showNat (n div 10) @ [digit (n mod 10)])"
  by pat_completeness auto
termination
  by (relation "measure id") auto

declare showNat.simps [simp del]

definition sinceQuery :: "nat option \<Rightarrow> string" where
  "sinceQuery lastSync =
     (case lastSync of
        None \<Rightarrow> ''''
      | Some t \<Rightarrow> if t = 0 then '''' else ''?since='' @ showNat t)"

definition syncVehicles :: "config \<Rightarrow> nat option \<Rightarrow> unit task" where
  "syncVehicles cfg lastSync =
     pullAndMerge (makeApiRequest V1_0_0 cfg (''/vehicles'' @ sinceQuery lastSync) GET None)
       ''vehicles'' ''vehicle_id''"

definition syncMaintenanceRecords :: "config \<Rightarrow> nat option \<Rightarrow> unit task" where
  "syncMaintenanceRecords cfg lastSync =
     pullAndMerge (makeApiRequest V1_0_0 cfg (''/maintenance'' @ sinceQuery lastSync) GET None)
       ''maintenanceRecords'' ''log_id''"

definition syncReceipts :: "config \<Rightarrow> nat option \<Rightarrow> unit task" where
  "syncReceipts cfg lastSync =
     pullAndMerge (makeApiRequest V1_0_0 cfg (''/receipts'' @ sinceQuery lastSync) GET None)
       ''receipts'' ''receipt_id''"

definition syncReminders :: "config \<Rightarrow> nat option \<Rightarrow> unit task" where
  "syncReminders cfg lastSync =
     pullAndMerge (makeApiRequest V1_0_0 cfg (''/reminders'' @ sinceQuery lastSync) GET None)
       ''reminders'' ''reminder_id''"

text \<open>
  \<^verbatim>\<open>syncData\<close> of revision 1.0.4; \<^verbatim>\<open>now\<close> is the value \<^verbatim>\<open>Date.now()\<close> returns when the
  pass completes. The loading overlay and the toasts are presentation and left out.
\<close>

definition syncData_v104 :: "config \<Rightarrow> nat \<Rightarrow> bool task" where
  "syncData_v104 cfg now =
     Get (\<lambda>w.
       if \<not> isOnline w \<or> webAppUrl cfg = '''' then Return False
       else tryCatch
              (andThen (makeApiRequest V1_0_4 cfg '''' GET None) (\<lambda>_.
               andThen (syncVehicles_v104 cfg) (\<lambda>_.
               Upd (\<lambda>w. w\<lparr>lastSyncTime := Some now\<rparr>)
                 (Get (\<lambda>w.
                    if APP w then Upd (saveLastSync now) (Return True) else Return True)))))
              (\<lambda>e. Return False))"

subsection \<open>Creating and deleting vehicles\<close>

text \<open>
  \<^verbatim>\<open>{vehicle_id: vehicleId, ...vehicleData, created_date: ..., last_updated: ...}\<close>:
  \<^verbatim>\<open>vehicleId\<close> is what \<^verbatim>\<open>generateId()\<close> returned, \<^verbatim>\<open>created\<close> and \<^verbatim>\<open>updated\<close> the two
  readings of the clock.
\<close>

definition newVehicle :: "string \<Rightarrow> jsobj \<Rightarrow> string \<Rightarrow> string \<Rightarrow> jsobj" where
  "newVehicle vehicleId vehicleData created updated =
     ([''vehicle_id'' \<mapsto> JStr vehicleId] ++ vehicleData)
       (''created_date'' \<mapsto> JStr created, ''last_updated'' \<mapsto> JStr updated)"

text \<open>
  \<^verbatim>\<open>vehicles = getFromStorage('vehicles') || []; vehicles.push(vehicle);
  saveToStorage('vehicles', vehicles); window.APP.state.vehicles = vehicles\<close>
\<close>

definition saveLocally :: "jsobj \<Rightarrow> unit task \<Rightarrow> unit task" where
  "saveLocally vehicle next =
     Get (\<lambda>w.
       if APP w
       then (let vehicles = storedOrEmpty w ''vehicles'' @ [vehicle]
             in Upd (saveToStorage ''vehicles'' vehicles) (Upd (setState ''vehicles'' vehicles) next))
       else next)"

text \<open>Revision 1.0.0: save locally first, then push if online; a failed push is rethrown.\<close>

definition addVehicle_v100 :: "config \<Rightarrow> string \<Rightarrow> string \<Rightarrow> string \<Rightarrow> jsobj \<Rightarrow> jsobj task" where
  "addVehicle_v100 cfg vehicleId created updated vehicleData =
     (let vehicle = newVehicle vehicleId vehicleData created updated in
      tryCatch
        (andThen (saveLocally vehicle (Return ())) (\<lambda>_.
           Get (\<lambda>w.
             if isOnline w \<and> webAppUrl cfg \<noteq> ''''
             then andThen (makeApiRequest V1_0_0 cfg ''/vehicles'' POST (Some vehicle))
                    (\<lambda>_. Return vehicle)
             else Return vehicle)))
        Throw)"

text \<open>Revision 1.0.4: push first if online, swallowing a failure, then save locally.\<close>

definition addVehicle_v104 :: "config \<Rightarrow> string \<Rightarrow> string \<Rightarrow> string \<Rightarrow> jsobj \<Rightarrow> jsobj task" where
  "addVehicle_v104 cfg vehicleId created updated vehicleData =
     (let vehicle = newVehicle vehicleId vehicleData created updated in
      tryCatch
        (Get (\<lambda>w.
           andThen
             (if isOnline w \<and> webAppUrl cfg \<noteq> ''''
              then tryCatch
                     (andThen (makeApiRequest V1_0_4 cfg ''vehicles'' POST (Some vehicle))
                        (\<lambda>_. Return ()))
                     (\<lambda>e. Return ())
              else Return ())
             (\<lambda>_. andThen (saveLocally vehicle (Return ())) (\<lambda>_. Return vehicle))))
        Throw)"

text \<open>\<^verbatim>\<open>deleteVehicle\<close> (revision 1.0.0): remove locally first, then the remote \<^verbatim>\<open>DELETE\<close>.\<close>

definition deleteVehicle :: "config \<Rightarrow> string \<Rightarrow> bool task" where
  "deleteVehicle cfg vehicleId =
     tryCatch
       (Get (\<lambda>w.
          andThen
            (if APP w
             then (let filteredVehicles =
                         filter (\<lambda>v. v ''vehicle_id'' \<noteq> Some (JStr vehicleId))
                           (storedOrEmpty w ''vehicles'')
                   in Upd (saveToStorage ''vehicles'' filteredVehicles)
                        (Upd (setState ''vehicles'' filteredVehicles) (Return ())))
             else Return ())
            (\<lambda>_. Get (\<lambda>w.
               if isOnline w \<and> webAppUrl cfg \<noteq> ''''
               then andThen
                      (makeApiRequest V1_0_0 cfg (''/vehicles/'' @ vehicleId) DELETE None)
                      (\<lambda>_. Return True)
               else Return True))))
       Throw"

subsection \<open>What a request leaves alone\<close>

text \<open>Two worlds that differ at most in the two logs.\<close>

definition sameStore :: "world \<Rightarrow> world \<Rightarrow> bool" where
  "sameStore w w' \<longleftrightarrow>
     isOnline w' = isOnline w \<and> lastSyncTime w' = lastSyncTime w \<and> APP w' = APP w \<and>
     localStorage w' = localStorage w \<and> storedLastSync w' = storedLastSync w \<and>
     quotaExceeded w' = quotaExceeded w \<and> appState w' = appState w"

subsection \<open>Values for the examples\<close>

text \<open>
  A stored vehicle, a browser that holds it, a configured deployment, a response carrying
  rows, a network that never answers and one that answers from the fourth request on; a
  response with a status outside 200..299 and a response whose envelope has the status
  \<^verbatim>\<open>'error'\<close>.
\<close>

definition ford :: jsobj where
  "ford = [''vehicle_id'' \<mapsto> JStr ''v1'', ''make'' \<mapsto> JStr ''Ford'', ''model'' \<mapsto> JStr ''F150'']"

definition garage :: world where
  "garage = freshWorld\<lparr>localStorage := [''vehicles'' \<mapsto> [ford]]\<rparr>"

definition deployment :: config where
  "deployment = GOOGLE_CONFIG ''https://script.example/exec''"

definition rowsResponse :: "jsobj list \<Rightarrow> fetch_outcome" where
  "rowsResponse records =
     Resolved \<lparr>http_status = 200, statusText = ''OK'',
               json = Json \<lparr>status = None, message = None, error = None, data = Some (Rows records)\<rparr>\<rparr>"

definition unreachable :: "nat \<Rightarrow> request \<Rightarrow> fetch_outcome" where
  "unreachable n r = Rejected ''Failed to fetch''"

definition flaky :: "nat \<Rightarrow> request \<Rightarrow> fetch_outcome" where
  "flaky n r = (if n < 3 then Rejected ''Failed to fetch'' else rowsResponse [ford])"

definition serverError :: fetch_outcome where
  "serverError =
     Resolved \<lparr>http_status = 500, statusText = ''Internal Server Error'',
               json = Malformed ''Unexpected token < in JSON at position 0''\<rparr>"

definition errorEnvelope :: fetch_outcome where
  "errorEnvelope =
     Resolved \<lparr>http_status = 200, statusText = ''OK'',
               json = Json \<lparr>status = Some (JStr ''error''), message = Some (JStr ''Vehicle not found''),
                            error = None, data = None\<rparr>\<rparr>"

section \<open>The backend: \<^verbatim>\<open>code.gs\<close>\<close>

text \<open>
  A sheet as \<^verbatim>\<open>sheet.getDataRange().getValues()\<close> returns it: \<^verbatim>\<open>headers\<close> is the first
  row (\<^verbatim>\<open>data[0]\<close>), \<^verbatim>\<open>rows\<close> the rows after it (\<^verbatim>\<open>data.slice(1)\<close>). A sheet that was
  never set up has no columns, \<^verbatim>\<open>headers = []\<close>.
\<close>

record sheet =
  headers :: "string list"
  rows :: "jsval list list"

text \<open>
  A JavaScript \<^verbatim>\<open>Date\<close>: its time value in milliseconds, or \<^verbatim>\<open>Invalid Date\<close> (time value
  \<^verbatim>\<open>NaN\<close>). \<^verbatim>\<open>a >= b\<close> on two dates compares the time values and is false when either
  is \<^verbatim>\<open>NaN\<close>.
\<close>

datatype jsdate = Date int | InvalidDate

definition date_ge :: "jsdate \<Rightarrow> jsdate \<Rightarrow> bool" where
  "date_ge a b =
     (case a of
        InvalidDate \<Rightarrow> False
      | Date x \<Rightarrow> (case b of InvalidDate \<Rightarrow> False | Date y \<Rightarrow> y \<le> x))"

text \<open>
  \<^verbatim>\<open>headers.forEach((header, index) => { record[header] = row[index]; })\<close>
\<close>

definition rowObject :: "string list \<Rightarrow> jsval list \<Rightarrow> jsobj" where
  "rowObject hs row = foldl (\<lambda>obj (header, cell). obj(header \<mapsto> cell)) Map.empty (zip hs row)"

text \<open>
  The scans. \<^verbatim>\<open>newDate\<close> is the platform's \<^verbatim>\<open>new Date(value)\<close> on a cell (or on
  \<^verbatim>\<open>undefined\<close>); \<^verbatim>\<open>since\<close> is \<^verbatim>\<open>None\<close> for \<^verbatim>\<open>null\<close>. A \<^verbatim>\<open>Date\<close> object is always
  truthy, so \<^verbatim>\<open>if (!since) return true\<close> only fires for \<^verbatim>\<open>null\<close>.
\<close>

definition getAllVehicles :: "(jsval option \<Rightarrow> jsdate) \<Rightarrow> sheet \<Rightarrow> jsdate option \<Rightarrow> jsobj list" where
  "getAllVehicles newDate sh since =
     filter (\<lambda>vehicle.
               case since of
                 None \<Rightarrow> True
               | Some s \<Rightarrow> (let lastUpdated = newDate (vehicle ''last_updated'') in date_ge lastUpdated s))
       (map (rowObject (headers sh)) (rows sh))"

definition getAllMaintenance :: "(jsval option \<Rightarrow> jsdate) \<Rightarrow> sheet \<Rightarrow> jsdate option \<Rightarrow> jsobj list" where
  "getAllMaintenance newDate sh since =
     (if length (rows sh) = 0 then []
      else filter (\<lambda>record.
                     case since of
                       None \<Rightarrow> True
                     | Some s \<Rightarrow> (let createdDate = newDate (record ''created_date'') in date_ge createdDate s))
             (map (rowObject (headers sh)) (rows sh)))"

definition getAllReceipts :: "(jsval option \<Rightarrow> jsdate) \<Rightarrow> sheet \<Rightarrow> jsdate option \<Rightarrow> jsobj list" where
  "getAllReceipts newDate sh since =
     (if length (rows sh) = 0 then []
      else filter (\<lambda>receipt.
                     case since of
                       None \<Rightarrow> True
                     | Some s \<Rightarrow> (let createdDate = newDate (receipt ''created_date'') in date_ge createdDate s))
             (map (rowObject (headers sh)) (rows sh)))"

definition getAllReminders :: "(jsval option \<Rightarrow> jsdate) \<Rightarrow> sheet \<Rightarrow> jsdate option \<Rightarrow> jsobj list" where
  "getAllReminders newDate sh since =
     (if length (rows sh) = 0 then []
      else filter (\<lambda>reminder.
                     case since of
                       None \<Rightarrow> True
                     | Some s \<Rightarrow> (let createdDate = newDate (reminder ''created_date'') in date_ge createdDate s))
             (map (rowObject (headers sh)) (rows sh)))"

text \<open>
  The appends. \<^verbatim>\<open>uuid\<close> is what \<^verbatim>\<open>generateId()\<close>, that is \<^verbatim>\<open>Utilities.getUuid()\<close>,
  returned; \<^verbatim>\<open>created\<close> and \<^verbatim>\<open>updated\<close> are the clock readings.
  \<^verbatim>\<open>sheet.getRange(1, 1, 1, sheet.getLastColumn())\<close> throws on a sheet without columns.
  The result is the record returned to the router and the sheet after \<^verbatim>\<open>appendRow\<close>.
\<close>

datatype gs_error = EmptyRange

definition appendRow :: "jsval list \<Rightarrow> sheet \<Rightarrow> sheet" where
  "appendRow values sh = sh\<lparr>rows := rows sh @ [values]\<rparr>"

definition storeRecord :: "sheet \<Rightarrow> jsobj \<Rightarrow> gs_error + jsobj \<times> sheet" where
  "storeRecord sh record =
     (if headers sh = [] then Inl EmptyRange
      else (let values = map (\<lambda>header. orElse (record header) (JStr '''')) (headers sh)
            in Inr (record, appendRow values sh)))"

definition addVehicle_gs :: "sheet \<Rightarrow> jsobj \<Rightarrow> string \<Rightarrow> string \<Rightarrow> string \<Rightarrow> gs_error + jsobj \<times> sheet" where
  "addVehicle_gs sh payload uuid created updated =
     storeRecord sh
       [''vehicle_id'' \<mapsto> JStr uuid,
        ''make'' \<mapsto> orElse (payload ''make'') (JStr ''''),
        ''model'' \<mapsto> orElse (payload ''model'') (JStr ''''),
        ''year'' \<mapsto> orElse (payload ''year'') (JStr ''''),
        ''vin'' \<mapsto> orElse (payload ''vin'') (JStr ''''),
        ''license_plate'' \<mapsto> orElse (payload ''license_plate'') (JStr ''''),
        ''current_mileage'' \<mapsto> orElse (payload ''current_mileage'') (JStr ''''),
        ''purchase_date'' \<mapsto> orElse (payload ''purchase_date'') (JStr ''''),
        ''warranty_expiration'' \<mapsto> orElse (payload ''warranty_expiration'') (JStr ''''),
        ''insurance_expiration'' \<mapsto> orElse (payload ''insurance_expiration'') (JStr ''''),
        ''registration_expiration'' \<mapsto> orElse (payload ''registration_expiration'') (JStr ''''),
        ''created_date'' \<mapsto> JStr created,
        ''last_updated'' \<mapsto> JStr updated]"

definition addMaintenance :: "sheet \<Rightarrow> jsobj \<Rightarrow> string \<Rightarrow> string \<Rightarrow> gs_error + jsobj \<times> sheet" where
  "addMaintenance sh payload uuid created =
     storeRecord sh
       [''log_id'' \<mapsto> JStr uuid,
        ''vehicle_id'' \<mapsto> orElse (payload ''vehicle_id'') (JStr ''''),
        ''maintenance_type'' \<mapsto> orElse (payload ''maintenance_type'') (JStr ''''),
        ''service_date'' \<mapsto> orElse (payload ''service_date'') (JStr ''''),
        ''mileage'' \<mapsto> orElse (payload ''mileage'') (JStr ''''),
        ''cost'' \<mapsto> orElse (payload ''cost'') (JStr ''''),
        ''service_provider'' \<mapsto> orElse (payload ''service_provider'') (JStr ''''),
        ''description'' \<mapsto> orElse (payload ''description'') (JStr ''''),
        ''next_service_mileage'' \<mapsto> orElse (payload ''next_service_mileage'') (JStr ''''),
        ''next_service_date'' \<mapsto> orElse (payload ''next_service_date'') (JStr ''''),
        ''receipt_id'' \<mapsto> orElse (payload ''receipt_id'') (JStr ''''),
        ''created_date'' \<mapsto> JStr created]"

definition addReceipt :: "sheet \<Rightarrow> jsobj \<Rightarrow> string \<Rightarrow> string \<Rightarrow> gs_error + jsobj \<times> sheet" where
  "addReceipt sh payload uuid created =
     storeRecord sh
       [''receipt_id'' \<mapsto> JStr uuid,
        ''vehicle_id'' \<mapsto> orElse (payload ''vehicle_id'') (JStr ''''),
        ''log_id'' \<mapsto> orElse (payload ''log_id'') (JStr ''''),
        ''receipt_date'' \<mapsto> orElse (payload ''receipt_date'') (JStr ''''),
        ''vendor'' \<mapsto> orElse (payload ''vendor'') (JStr ''''),
        ''amount'' \<mapsto> orElse (payload ''amount'') (JStr ''''),
        ''description'' \<mapsto> orElse (payload ''description'') (JStr ''''),
        ''image_url'' \<mapsto> orElse (payload ''image_url'') (JStr ''''),
        ''category'' \<mapsto> orElse (payload ''category'') (JStr ''''),
        ''created_date'' \<mapsto> JStr created]"

definition addReminder :: "sheet \<Rightarrow> jsobj \<Rightarrow> string \<Rightarrow> string \<Rightarrow> gs_error + jsobj \<times> sheet" where
  "addReminder sh payload uuid created =
     storeRecord sh
       [''reminder_id'' \<mapsto> JStr uuid,
        ''vehicle_id'' \<mapsto> orElse (payload ''vehicle_id'') (JStr ''''),
        ''reminder_type'' \<mapsto> orElse (payload ''reminder_type'') (JStr ''''),
        ''due_date'' \<mapsto> orElse (payload ''due_date'') (JStr ''''),
        ''due_mileage'' \<mapsto> orElse (payload ''due_mileage'') (JStr ''''),
        ''status'' \<mapsto> orElse (payload ''status'') (JStr ''active''),
        ''message'' \<mapsto> orElse (payload ''message'') (JStr ''''),
        ''created_date'' \<mapsto> JStr created]"

text \<open>
  The platform's \<^verbatim>\<open>new Date(value)\<close> on a cell. \<^verbatim>\<open>undefined\<close> gives \<^verbatim>\<open>Invalid Date\<close>,
  \<^verbatim>\<open>null\<close> the epoch, a boolean \<open>0\<close> or \<open>1\<close>, a number its own time value when it is within
  \<open>8.64e15\<close> milliseconds of the epoch. A string goes through \<^verbatim>\<open>Date.parse\<close>: a string in
  the format of \<^verbatim>\<open>toISOString()\<close>, \<^verbatim>\<open>YYYY-MM-DDTHH:mm:ss.sssZ\<close> with every field in range,
  which is what the appends write into \<^verbatim>\<open>created_date\<close> and \<^verbatim>\<open>last_updated\<close>, is the UTC
  time it denotes; what \<^verbatim>\<open>Date.parse\<close> makes of any other string is the parameter
  \<^verbatim>\<open>other\<close>.
\<close>

fun digits :: "string \<Rightarrow> nat \<Rightarrow> nat option" where
  "digits [] acc = Some acc"
| "digits (c # cs) acc =
     (if 48 \<le> (of_char c :: nat) \<and> (of_char c :: nat) \<le> 57
      then digits cs (10 * acc + (of_char c - 48))
      else None)"

definition digitsAt :: "string \<Rightarrow> nat \<Rightarrow> nat \<Rightarrow> nat option" where
  "digitsAt s i n = digits (take n (drop i s)) 0"

definition leapYear :: "nat \<Rightarrow> bool" where
  "leapYear y = (y mod 4 = 0 \<and> (y mod 100 \<noteq> 0 \<or> y mod 400 = 0))"

definition daysInMonth :: "nat \<Rightarrow> nat \<Rightarrow> nat" where
  "daysInMonth y m =
     (if m = 2 then (if leapYear y then 29 else 28)
      else if m = 4 \<or> m = 6 \<or> m = 9 \<or> m = 11 then 30 else 31)"

text \<open>
  The number of days from 1970-01-01 to the given day of the proleptic Gregorian calendar
  (years counted from March, in eras of 400 years, that is 146097 days).
\<close>

definition daysFromEpoch :: "nat \<Rightarrow> nat \<Rightarrow> nat \<Rightarrow> int" where
  "daysFromEpoch y m d =
     (let y' = (if m \<le> 2 then int y - 1 else int y);
          era = y' div 400;
          yoe = y' - era * 400;
          mp = (int m + 9) mod 12;
          doy = (153 * mp + 2) div 5 + int d - 1;
          doe = yoe * 365 + yoe div 4 - yoe div 100 + doy
      in era * 146097 + doe - 719468)"

definition isoTime :: "string \<Rightarrow> int option" where
  "isoTime s =
     (if length s = 24 \<and> s ! 4 = CHR ''-'' \<and> s ! 7 = CHR ''-'' \<and> s ! 10 = CHR ''T''
         \<and> s ! 13 = CHR '':'' \<and> s ! 16 = CHR '':'' \<and> s ! 19 = CHR ''.'' \<and> s ! 23 = CHR ''Z''
      then (case (digitsAt s 0 4, digitsAt s 5 2, digitsAt s 8 2, digitsAt s 11 2,
                  digitsAt s 14 2, digitsAt s 17 2, digitsAt s 20 3) of
              (Some y, Some mo, Some d, Some h, Some mi, Some sec, Some ms) \<Rightarrow>
                if 1 \<le> mo \<and> mo \<le> 12 \<and> 1 \<le> d \<and> d \<le> daysInMonth y mo
                   \<and> h \<le> 23 \<and> mi \<le> 59 \<and> sec \<le> 59
                then Some (daysFromEpoch y mo d * 86400000 + int h * 3600000 + int mi * 60000
                           + int sec * 1000 + int ms)
                else None
            | _ \<Rightarrow> None)
      else None)"

definition toDate :: "(string \<Rightarrow> jsdate) \<Rightarrow> jsval option \<Rightarrow> jsdate" where
  "toDate other v =
     (case v of
        None \<Rightarrow> InvalidDate
      | Some JNull \<Rightarrow> Date 0
      | Some (JBool b) \<Rightarrow> Date (if b then 1 else 0)
      | Some (JNum n) \<Rightarrow> if \<bar>n\<bar> \<le> 8640000000000000 then Date n else InvalidDate
      | Some (JStr s) \<Rightarrow> (case isoTime s of Some t \<Rightarrow> Date t | None \<Rightarrow> other s))"

text \<open>
  Sheets for the examples: two vehicles, and two maintenance records, stamped ten seconds
  apart, at 2025-08-19 10:00:00 UTC (time value \<open>1755597600000\<close>) and 10:00:10.
\<close>

definition twoVehicles :: sheet where
  "twoVehicles =
     \<lparr>headers = [''vehicle_id'', ''make'', ''last_updated''],
      rows = [[JStr ''v1'', JStr ''Ford'', JStr ''2025-08-19T10:00:00.000Z''],
              [JStr ''v2'', JStr ''Honda'', JStr ''2025-08-19T10:00:10.000Z'']]\<rparr>"

definition twoLogs :: sheet where
  "twoLogs =
     \<lparr>headers = [''log_id'', ''vehicle_id'', ''created_date''],
      rows = [[JStr ''m1'', JStr ''v1'', JStr ''2025-08-19T10:00:00.000Z''],
              [JStr ''m2'', JStr ''v1'', JStr ''2025-08-19T10:00:10.000Z'']]\<rparr>"

section \<open>Properties of the merge\<close>

lemma findIndex_None: "findIndex P xs = None \<longleftrightarrow> (\<forall>x \<in> set xs. \<not> P x)"
  by (induction xs) auto

lemma findIndex_append:
  "findIndex P ys = None \<Longrightarrow> findIndex P (xs @ ys) = findIndex P xs"
  by (induction xs) auto

lemma map_add_same_id: "r k = m k \<Longrightarrow> (m ++ r) k = m k"
  by (simp add: map_add_def split: option.splits)

lemma findIndex_less: "findIndex P xs = Some i \<Longrightarrow> i < length xs"
  by (induction xs arbitrary: i) (auto split: if_splits)

lemma overwrite_Cons:
  "overwrite k (m # ms) r = (if m k = r k then (m ++ r) # ms else m # overwrite k ms r)"
  by (auto simp: overwrite_def split: option.splits)

lemma overwrite_append:
  assumes "\<forall>a \<in> set as. a k \<noteq> r k"
  shows "overwrite k (ms @ as) r = overwrite k ms r @ as"
proof -
  have "findIndex (\<lambda>item. item k = r k) as = None"
    using assms by (simp add: findIndex_None)
  then show ?thesis
    by (auto simp: overwrite_def findIndex_append list_update_append nth_append
             dest: findIndex_less split: option.splits)
qed

lemma mergeItem_absent:
  "r k \<notin> S \<Longrightarrow> mergeItem S k merged r = merged @ [r]"
  by (simp add: mergeItem_def)

lemma mergeItem_present:
  "r k \<in> S \<Longrightarrow> mergeItem S k merged r = overwrite k merged r"
  by (simp add: mergeItem_def overwrite_def)

lemma foldl_mergeItem:
  assumes "\<forall>a \<in> set as. a k \<notin> S"
  shows "foldl (mergeItem S k) (ms @ as) rs =
           foldl (overwrite k) ms (filter (\<lambda>r. r k \<in> S) rs) @ as @ filter (\<lambda>r. r k \<notin> S) rs"
  using assms
proof (induction rs arbitrary: ms as)
  case Nil
  then show ?case by simp
next
  case (Cons r rs)
  show ?case
  proof (cases "r k \<in> S")
    case True
    with Cons.prems have "\<forall>a \<in> set as. a k \<noteq> r k" by auto
    then have "mergeItem S k (ms @ as) r = overwrite k ms r @ as"
      using True by (simp add: mergeItem_present overwrite_append)
    with Cons.IH[OF Cons.prems] True show ?thesis by simp
  next
    case False
    then have step: "mergeItem S k (ms @ as) r = ms @ (as @ [r])"
      by (simp add: mergeItem_absent)
    have "\<forall>a \<in> set (as @ [r]). a k \<notin> S" using Cons.prems False by auto
    from Cons.IH[OF this] step False show ?thesis by simp
  qed
qed

lemma foldl_overlay_id:
  "\<forall>r \<in> set rs. r k = m k \<Longrightarrow> (foldl (++) m rs) k = m k"
proof (induction rs arbitrary: m)
  case Nil
  then show ?case by simp
next
  case (Cons r rs)
  have "(m ++ r) k = m k" using Cons.prems by (simp add: map_add_same_id)
  with Cons show ?case by simp
qed

lemma foldl_overwrite_Cons:
  "foldl (overwrite k) (m # ms) rs =
     foldl (++) m (filter (\<lambda>r. r k = m k) rs) # foldl (overwrite k) ms (filter (\<lambda>r. r k \<noteq> m k) rs)"
proof (induction rs arbitrary: m ms)
  case Nil
  then show ?case by simp
next
  case (Cons r rs)
  show ?case
  proof (cases "m k = r k")
    case True
    then have "(m ++ r) k = m k" by (simp add: map_add_same_id)
    with True Cons.IH[of "m ++ r" ms] show ?thesis
      by (simp add: overwrite_Cons)
  next
    case False
    with Cons.IH[of m "overwrite k ms r"] show ?thesis
      by (auto simp add: overwrite_Cons)
  qed
qed

lemma foldl_overwrite_Nil: "foldl (overwrite k) [] rs = []"
  by (induction rs) (auto simp: overwrite_def)

lemma foldl_overwrite_overlaid: "foldl (overwrite k) ms rs = overlaid k rs ms"
  by (induction ms arbitrary: rs) (simp_all add: foldl_overwrite_Nil foldl_overwrite_Cons)

lemma mergeData_overlaid:
  "mergeData L R k =
     overlaid k (filter (\<lambda>r. r k \<in> set (map (\<lambda>item. item k) L)) R) L
       @ filter (\<lambda>r. r k \<notin> set (map (\<lambda>item. item k) L)) R"
  using foldl_mergeItem[of "[]" k "set (map (\<lambda>item. item k) L)" L R]
  by (simp add: mergeData_def foldl_overwrite_overlaid)

lemma length_overlaid: "length (overlaid k rs ms) = length ms"
  by (induction ms arbitrary: rs) simp_all

lemma ids_overlaid: "map (\<lambda>m. m k) (overlaid k rs ms) = map (\<lambda>m. m k) ms"
  by (induction ms arbitrary: rs) (simp_all add: foldl_overlay_id)

lemma overlaid_filter:
  "\<forall>m \<in> set ms. Q (m k) \<Longrightarrow> overlaid k (filter (\<lambda>r. Q (r k)) rs) ms = overlaid k rs ms"
proof (induction ms arbitrary: rs)
  case Nil
  then show ?case by simp
next
  case (Cons m ms)
  have h: "filter (\<lambda>r. r k = m k) (filter (\<lambda>r. Q (r k)) rs) = filter (\<lambda>r. r k = m k) rs"
    using Cons.prems by (auto intro: filter_cong)
  have t: "filter (\<lambda>r. r k \<noteq> m k) (filter (\<lambda>r. Q (r k)) rs)
             = filter (\<lambda>r. Q (r k)) (filter (\<lambda>r. r k \<noteq> m k) rs)"
    by (auto intro: filter_cong)
  have "overlaid k (filter (\<lambda>r. Q (r k)) (filter (\<lambda>r. r k \<noteq> m k) rs)) ms
          = overlaid k (filter (\<lambda>r. r k \<noteq> m k) rs) ms"
    using Cons.prems by (intro Cons.IH) simp
  then show ?case by (simp only: overlaid.simps h t)
qed

lemma overlaid_append:
  "overlaid k rs (ms @ as) =
     overlaid k rs ms @ overlaid k (filter (\<lambda>r. r k \<notin> set (map (\<lambda>m. m k) ms)) rs) as"
proof (induction ms arbitrary: rs)
  case Nil
  then show ?case by simp
next
  case (Cons m ms)
  have "filter (\<lambda>r. r k \<notin> set (map (\<lambda>m. m k) ms)) (filter (\<lambda>r. r k \<noteq> m k) rs)
          = filter (\<lambda>r. r k \<notin> set (map (\<lambda>m. m k) (m # ms))) rs"
    by (auto intro: filter_cong)
  with Cons.IH[of "filter (\<lambda>r. r k \<noteq> m k) rs"] show ?case by simp
qed

lemma foldl_map_add: "foldl (++) m rs = m ++ foldl (++) Map.empty rs"
proof (induction rs arbitrary: m)
  case Nil
  then show ?case by simp
next
  case (Cons r rs)
  have "foldl (++) (m ++ r) rs = (m ++ r) ++ foldl (++) Map.empty rs" by (rule Cons.IH)
  moreover have "foldl (++) (Map.empty ++ r) rs = r ++ foldl (++) Map.empty rs"
    using Cons.IH[of r] by simp
  ultimately show ?case by simp
qed

lemma map_add_twice: "(m ++ c) ++ c = m ++ (c :: 'a \<rightharpoonup> 'b)"
  by (rule ext) (simp add: map_add_def split: option.splits)

lemma foldl_map_add_twice: "foldl (++) (foldl (++) m rs) rs = foldl (++) m rs"
proof -
  have "foldl (++) (foldl (++) m rs) rs = (m ++ foldl (++) Map.empty rs) ++ foldl (++) Map.empty rs"
    using foldl_map_add[of "foldl (++) m rs" rs] foldl_map_add[of m rs] by simp
  then show ?thesis by (simp add: map_add_twice foldl_map_add[of m rs])
qed

lemma overlaid_twice: "overlaid k rs (overlaid k rs ms) = overlaid k rs ms"
proof (induction ms arbitrary: rs)
  case Nil
  then show ?case by simp
next
  case (Cons m ms)
  define h where "h = foldl (++) m (filter (\<lambda>r. r k = m k) rs)"
  define t where "t = overlaid k (filter (\<lambda>r. r k \<noteq> m k) rs) ms"
  have id: "h k = m k" by (simp add: h_def foldl_overlay_id)
  have unfold: "overlaid k rs (m # ms) = h # t" by (simp add: h_def t_def)
  have hh: "foldl (++) h (filter (\<lambda>r. r k = h k) rs) = h"
    unfolding id unfolding h_def by (rule foldl_map_add_twice)
  have tt: "overlaid k (filter (\<lambda>r. r k \<noteq> h k) rs) t = t"
    unfolding id unfolding t_def by (rule Cons.IH)
  show ?case unfolding unfold by (simp only: overlaid.simps hh tt)
qed

lemma map_add_self: "a ++ a = (a :: 'a \<rightharpoonup> 'b)"
  by (rule ext) (simp add: map_add_def split: option.splits)

lemma foldl_map_add_same: "\<forall>r \<in> set rs. r = a \<Longrightarrow> foldl (++) a rs = a"
  by (induction rs) (simp_all add: map_add_self)

lemma overlaid_same:
  "\<forall>a \<in> set as. \<forall>r \<in> set rs. r k = a k \<longrightarrow> r = a \<Longrightarrow> overlaid k rs as = as"
proof (induction as arbitrary: rs)
  case Nil
  then show ?case by simp
next
  case (Cons a as)
  have h: "foldl (++) a (filter (\<lambda>r. r k = a k) rs) = a"
    using Cons.prems by (intro foldl_map_add_same) auto
  have "overlaid k (filter (\<lambda>r. r k \<noteq> a k) rs) as = as"
    using Cons.prems by (intro Cons.IH) auto
  then show ?case by (simp add: h)
qed

lemma overlaid_self:
  assumes "distinct (map (\<lambda>a. a k) as)"
  shows "overlaid k as as = as"
proof -
  have "inj_on (\<lambda>a. a k) (set as)" using assms by (simp add: distinct_map)
  then have "\<forall>a \<in> set as. \<forall>r \<in> set as. r k = a k \<longrightarrow> r = a"
    by (auto dest: inj_onD)
  then show ?thesis by (rule overlaid_same)
qed

lemma mergeData_twice:
  assumes "distinct (map (\<lambda>r. r k) (filter (\<lambda>r. r k \<notin> set (map (\<lambda>item. item k) L)) R))"
  shows "mergeData (mergeData L R k) R k = mergeData L R k"
proof -
  define S where "S = set (map (\<lambda>item. item k) L)"
  define P where "P = filter (\<lambda>r. r k \<in> S) R"
  define A where "A = filter (\<lambda>r. r k \<notin> S) R"
  define U where "U = overlaid k P L"
  have first: "mergeData L R k = U @ A"
    by (simp add: mergeData_overlaid U_def A_def P_def S_def)
  have idsU: "map (\<lambda>m. m k) U = map (\<lambda>m. m k) L" by (simp add: U_def ids_overlaid)
  then have setU: "set (map (\<lambda>m. m k) U) = S" by (simp add: S_def)
  have ids1: "set (map (\<lambda>item. item k) (U @ A)) = S \<union> (\<lambda>r. r k) ` set A"
    using setU by auto
  have all_present: "\<forall>r \<in> set R. r k \<in> S \<union> (\<lambda>r. r k) ` set A"
    by (auto simp: A_def)
  have f1: "filter (\<lambda>r. r k \<in> set (map (\<lambda>item. item k) (U @ A))) R = R"
    unfolding ids1 using all_present by (simp add: filter_id_conv)
  have f2: "filter (\<lambda>r. r k \<notin> set (map (\<lambda>item. item k) (U @ A))) R = []"
    unfolding ids1 using all_present by (simp add: filter_empty_conv)
  have second: "mergeData (U @ A) R k = overlaid k R (U @ A)"
    by (simp only: mergeData_overlaid[of "U @ A" R k] f1 f2 append_Nil2)
  have split: "overlaid k R (U @ A) = overlaid k R U @ overlaid k A A"
    by (simp only: overlaid_append setU A_def)
  have "overlaid k A A = A"
    using assms by (intro overlaid_self) (simp add: A_def S_def)
  moreover have "overlaid k R U = U"
  proof -
    have "\<forall>m \<in> set U. m k \<in> S" using setU by auto
    then have "overlaid k R U = overlaid k P U"
      unfolding P_def by (rule overlaid_filter[symmetric])
    then show ?thesis by (simp add: U_def overlaid_twice)
  qed
  ultimately show ?thesis by (simp add: first second split)
qed

lemma id_in_ids: "x \<in> set xs \<Longrightarrow> x k \<in> set (map (\<lambda>m. m k) xs)"
  by (induction xs) auto

lemma overlaid_pick:
  assumes "distinct (map (\<lambda>m. m k) ms)" and "l \<in> set ms"
  shows "filter (\<lambda>m. m k = l k) (overlaid k rs ms) = [foldl (++) l (filter (\<lambda>r. r k = l k) rs)]"
  using assms
proof (induction ms arbitrary: rs)
  case Nil
  then show ?case by simp
next
  case (Cons m ms)
  define h where "h = foldl (++) m (filter (\<lambda>r. r k = m k) rs)"
  define t where "t = overlaid k (filter (\<lambda>r. r k \<noteq> m k) rs) ms"
  have unfold: "overlaid k rs (m # ms) = h # t" by (simp add: h_def t_def)
  have hid: "h k = m k" by (simp add: h_def foldl_overlay_id)
  have tids: "map (\<lambda>m. m k) t = map (\<lambda>m. m k) ms" by (simp add: t_def ids_overlaid)
  have fresh: "m k \<notin> set (map (\<lambda>m. m k) ms)" using Cons.prems(1) by simp
  show ?case
  proof (cases "l = m")
    case True
    have "\<forall>x \<in> set t. x k \<noteq> m k"
    proof
      fix x assume "x \<in> set t"
      then have "x k \<in> set (map (\<lambda>m. m k) t)" by simp
      with tids fresh show "x k \<noteq> m k" by metis
    qed
    then have "filter (\<lambda>x. x k = m k) t = []" by (simp add: filter_empty_conv)
    with True hid show ?thesis unfolding unfold by (simp add: h_def)
  next
    case False
    with Cons.prems have lin: "l \<in> set ms" by simp
    then have "l k \<in> set (map (\<lambda>m. m k) ms)" by simp
    with fresh have neq: "l k \<noteq> m k" by metis
    have "filter (\<lambda>r. r k = l k) (filter (\<lambda>r. r k \<noteq> m k) rs) = filter (\<lambda>r. r k = l k) rs"
      using neq by (auto intro: filter_cong)
    moreover have "filter (\<lambda>x. x k = l k) t
        = [foldl (++) l (filter (\<lambda>r. r k = l k) (filter (\<lambda>r. r k \<noteq> m k) rs))]"
      unfolding t_def using Cons.prems(1) lin by (intro Cons.IH) simp_all
    ultimately show ?thesis unfolding unfold using neq hid by simp
  qed
qed

lemma filter_same_id:
  assumes "distinct (map (\<lambda>r. r k) rs)" and "r \<in> set rs"
  shows "filter (\<lambda>x. x k = r k) rs = [r]"
  using assms
proof (induction rs)
  case Nil
  then show ?case by simp
next
  case (Cons a rs)
  show ?case
  proof (cases "r = a")
    case True
    have "\<forall>x \<in> set rs. x k \<noteq> a k" using Cons.prems(1) id_in_ids[of _ rs k] by fastforce
    then have "filter (\<lambda>x. x k = a k) rs = []" by (simp add: filter_empty_conv)
    with True show ?thesis by simp
  next
    case False
    with Cons.prems have "r \<in> set rs" by simp
    moreover from this Cons.prems(1) have "a k \<noteq> r k" using id_in_ids[of r rs k] by fastforce
    ultimately show ?thesis using Cons by simp
  qed
qed

lemma mergeData_single:
  assumes dl: "distinct (map (\<lambda>item. item k) L)"
      and dr: "distinct (map (\<lambda>item. item k) R)"
      and l: "l \<in> set L" and r: "r \<in> set R" and same: "l k = r k"
  shows "filter (\<lambda>m. m k = r k) (mergeData L R k) = [l ++ r]"
proof -
  define S where "S = set (map (\<lambda>item. item k) L)"
  have inS: "r k \<in> S" using id_in_ids[OF l, of k] same by (simp add: S_def)
  have absent: "filter (\<lambda>m. m k = r k) (filter (\<lambda>x. x k \<notin> S) R) = []"
    using inS by (auto simp: filter_empty_conv)
  have "filter (\<lambda>x. x k = l k) (filter (\<lambda>x. x k \<in> S) R) = filter (\<lambda>x. x k = r k) R"
    using inS same by (auto intro: filter_cong)
  also have "\<dots> = [r]" using dr r by (rule filter_same_id)
  finally have one: "filter (\<lambda>x. x k = l k) (filter (\<lambda>x. x k \<in> S) R) = [r]" .
  have "filter (\<lambda>m. m k = l k) (overlaid k (filter (\<lambda>x. x k \<in> S) R) L) = [l ++ r]"
    using overlaid_pick[OF dl l, of "filter (\<lambda>x. x k \<in> S) R"] one by simp
  then show ?thesis
    using absent same by (simp add: mergeData_overlaid S_def)
qed

lemma foldl_map_add_dom: "dom m \<subseteq> dom (foldl (++) m rs)"
proof (induction rs arbitrary: m)
  case Nil
  then show ?case by simp
next
  case (Cons r rs)
  have "dom m \<subseteq> dom (m ++ r)" by auto
  also have "\<dots> \<subseteq> dom (foldl (++) (m ++ r) rs)" by (rule Cons.IH)
  finally show ?case by simp
qed

lemma overlaid_keeps:
  "list_all2 (\<lambda>l m. m k = l k \<and> dom l \<subseteq> dom m) ms (overlaid k rs ms)"
  by (induction ms arbitrary: rs) (simp_all add: foldl_overlay_id foldl_map_add_dom)

section \<open>Properties of the client\<close>

lemma run_andThen:
  "run (andThen t f) net w =
     (case run t net w of (Inl e, w') \<Rightarrow> (Inl e, w') | (Inr x, w') \<Rightarrow> run (f x) net w')"
  by (induction t arbitrary: w) simp_all

lemma run_tryCatch:
  "run (tryCatch t h) net w =
     (case run t net w of (Inl e, w') \<Rightarrow> run (h e) net w' | (Inr x, w') \<Rightarrow> (Inr x, w'))"
  by (induction t arbitrary: w) simp_all

lemma run_rethrow: "run (tryCatch t Throw) net w = run t net w"
  by (simp add: run_tryCatch split: prod.splits sum.splits)

lemma sameStore_refl: "sameStore w w"
  by (simp add: sameStore_def)

lemma sameStore_logs:
  "sameStore (w\<lparr>fetchLog := rs\<rparr>) w' = sameStore w w'"
  "sameStore (w\<lparr>timerLog := ds\<rparr>) w' = sameStore w w'"
  "sameStore w (w'\<lparr>fetchLog := rs\<rparr>) = sameStore w w'"
  "sameStore w (w'\<lparr>timerLog := ds\<rparr>) = sameStore w w'"
  by (simp_all add: sameStore_def)

lemma attempts_sameStore: "sameStore w (snd (run (attempts rv cfg req a e) net w))"
proof (induction rv cfg req a e arbitrary: w rule: attempts.induct)
  case (1 rv cfg req attempt lastError)
  show ?case
  proof (cases "attempt \<le> retryAttempts cfg")
    case False
    then show ?thesis by (subst attempts.simps) (simp add: sameStore_refl)
  next
    case True
    let ?w1 = "w\<lparr>fetchLog := fetchLog w @ [req]\<rparr>"
    let ?out = "net (length (fetchLog w)) req"
    show ?thesis
    proof (cases "settle rv ?out")
      case (Inr result)
      with True show ?thesis by (subst attempts.simps) (simp add: sameStore_def)
    next
      case (Inl err)
      show ?thesis
      proof (cases "attempt < retryAttempts cfg")
        case lt: True
        have "sameStore (?w1\<lparr>timerLog := timerLog ?w1 @ [retryDelay cfg * attempt]\<rparr>)
                (snd (run (attempts rv cfg req (attempt + 1) err) net
                   (?w1\<lparr>timerLog := timerLog ?w1 @ [retryDelay cfg * attempt]\<rparr>)))"
          using "1.IH"(1)[OF True Inl lt] .
        then show ?thesis
          using True Inl lt by (subst attempts.simps) (simp add: sameStore_logs)
      next
        case ge: False
        have "sameStore ?w1 (snd (run (attempts rv cfg req (attempt + 1) err) net ?w1))"
          using "1.IH"(2)[OF True Inl ge] .
        then show ?thesis
          using True Inl ge by (subst attempts.simps) (simp add: sameStore_logs)
      qed
    qed
  qed
qed

lemma makeApiRequest_sameStore:
  "sameStore w (snd (run (makeApiRequest rv cfg action method payload) net w))"
  by (simp add: makeApiRequest_def attempts_sameStore sameStore_refl)

lemma attempts_exhausted:
  assumes "\<forall>i. attempt + i \<le> retryAttempts cfg \<longrightarrow>
             isl (settle rv (net (length (fetchLog w) + i) req))"
      and "1 \<le> attempt"
  shows "run (attempts rv cfg req attempt lastError) net w =
           (Inl (if retryAttempts cfg < attempt then lastError
                 else projl (settle rv (net (length (fetchLog w) + (retryAttempts cfg - attempt)) req))),
            w\<lparr>fetchLog := fetchLog w @ replicate (retryAttempts cfg + 1 - attempt) req,
              timerLog := timerLog w @ map (\<lambda>n. retryDelay cfg * n) [attempt ..< retryAttempts cfg]\<rparr>)"
  using assms
proof (induction rv cfg req attempt lastError arbitrary: w rule: attempts.induct)
  case (1 rv cfg req attempt lastError)
  show ?case
  proof (cases "attempt \<le> retryAttempts cfg")
    case False
    then show ?thesis by (subst attempts.simps) simp
  next
    case True
    let ?w1 = "w\<lparr>fetchLog := fetchLog w @ [req]\<rparr>"
    let ?out = "net (length (fetchLog w)) req"
    from "1.prems"(1)[rule_format, of 0] True obtain err where Inl: "settle rv ?out = Inl err"
      by (cases "settle rv ?out") auto
    have shift: "\<forall>i. attempt + 1 + i \<le> retryAttempts cfg \<longrightarrow>
                   isl (settle rv (net (length (fetchLog w') + i) req))"
      if "length (fetchLog w') = length (fetchLog w) + 1" for w'
    proof (intro allI impI)
      fix i assume "attempt + 1 + i \<le> retryAttempts cfg"
      then have "attempt + (i + 1) \<le> retryAttempts cfg" by simp
      from "1.prems"(1)[rule_format, OF this] that
      show "isl (settle rv (net (length (fetchLog w') + i) req))" by (simp add: add.commute add.left_commute)
    qed
    have rep: "replicate (retryAttempts cfg + 1 - attempt) req
                 = req # replicate (retryAttempts cfg + 1 - (attempt + 1)) req"
      using True by (cases "retryAttempts cfg + 1 - attempt") (auto simp: Suc_diff_le)
    show ?thesis
    proof (cases "attempt < retryAttempts cfg")
      case lt: True
      let ?w2 = "?w1\<lparr>timerLog := timerLog ?w1 @ [retryDelay cfg * attempt]\<rparr>"
      have ih: "run (attempts rv cfg req (attempt + 1) err) net ?w2 =
           (Inl (if retryAttempts cfg < attempt + 1 then err
                 else projl (settle rv (net (length (fetchLog ?w2) + (retryAttempts cfg - (attempt + 1))) req))),
            ?w2\<lparr>fetchLog := fetchLog ?w2 @ replicate (retryAttempts cfg + 1 - (attempt + 1)) req,
              timerLog := timerLog ?w2 @ map (\<lambda>n. retryDelay cfg * n) [attempt + 1 ..< retryAttempts cfg]\<rparr>)"
        by (rule "1.IH"(1)[OF True Inl lt]) (use shift[of ?w2] in simp_all)
      have step: "run (attempts rv cfg req attempt lastError) net w
                    = run (attempts rv cfg req (attempt + 1) err) net ?w2"
        using True lt Inl by (subst attempts.simps) simp
      have idx: "length (fetchLog ?w2) + (retryAttempts cfg - (attempt + 1))
                   = length (fetchLog w) + (retryAttempts cfg - attempt)"
        using lt by simp
      have up: "[attempt ..< retryAttempts cfg] = attempt # [attempt + 1 ..< retryAttempts cfg]"
        using lt by (simp add: upt_conv_Cons)
      show ?thesis
        unfolding step ih idx rep up using lt by simp
    next
      case ge: False
      with True have eq: "attempt = retryAttempts cfg" by simp
      have ih: "run (attempts rv cfg req (attempt + 1) err) net ?w1 =
           (Inl (if retryAttempts cfg < attempt + 1 then err
                 else projl (settle rv (net (length (fetchLog ?w1) + (retryAttempts cfg - (attempt + 1))) req))),
            ?w1\<lparr>fetchLog := fetchLog ?w1 @ replicate (retryAttempts cfg + 1 - (attempt + 1)) req,
              timerLog := timerLog ?w1 @ map (\<lambda>n. retryDelay cfg * n) [attempt + 1 ..< retryAttempts cfg]\<rparr>)"
        by (rule "1.IH"(2)[OF True Inl ge]) (use shift[of ?w1] in simp_all)
      have step: "run (attempts rv cfg req attempt lastError) net w
                    = run (attempts rv cfg req (attempt + 1) err) net ?w1"
        using True ge Inl by (subst attempts.simps) simp
      show ?thesis
        unfolding step ih using eq Inl by simp
    qed
  qed
qed

lemma attempts_first_success:
  assumes "attempt \<le> retryAttempts cfg"
      and "settle rv (net (length (fetchLog w)) req) = Inr result"
  shows "run (attempts rv cfg req attempt lastError) net w =
           (Inr result, w\<lparr>fetchLog := fetchLog w @ [req]\<rparr>)"
  using assms by (subst attempts.simps) simp

lemma start_run:
  "start t w = (Return x, w') \<Longrightarrow> run t net w = (Inr x, w')"
  "start t w = (Throw e, w') \<Longrightarrow> run t net w = (Inl e, w')"
  "start t w = (Fetch r k, w') \<Longrightarrow>
     run t net w = run (k (net (length (fetchLog w') - 1) r)) net w'"
  "start t w = (Sleep d t', w') \<Longrightarrow> run t net w = run t' net w'"
  by (induction t arbitrary: w) auto

lemma settle_failures:
  "settle rv (Rejected reason) = Inl (TransportError reason)"
  "\<not> ok response \<Longrightarrow> settle rv (Resolved response) = Inl (HttpError (http_status response) (statusText response))"
  "ok response \<Longrightarrow> json response = Json result \<Longrightarrow> status result = Some (JStr ''error'') \<Longrightarrow>
     settle V1_0_4 (Resolved response) = Inl (ApiError (orElse (message result) (JStr ''Unknown API error'')))"
  by (simp_all add: settle_def)

lemma error_status_resolves_v100:
  "run (makeApiRequest V1_0_0 deployment ''/vehicles'' GET None) (\<lambda>n r. errorEnvelope) freshWorld
     = (Inr \<lparr>status = Some (JStr ''error''), message = Some (JStr ''Vehicle not found''),
              error = None, data = None\<rparr>,
        freshWorld\<lparr>fetchLog := [buildRequest V1_0_0 deployment ''/vehicles'' GET None]\<rparr>)"
proof -
  have "settle V1_0_0 errorEnvelope
      = Inr \<lparr>status = Some (JStr ''error''), message = Some (JStr ''Vehicle not found''),
             error = None, data = None\<rparr>"
    by (simp add: settle_def errorEnvelope_def ok_def)
  then have "run (attempts V1_0_0 deployment (buildRequest V1_0_0 deployment ''/vehicles'' GET None) 1 Undefined)
               (\<lambda>n r. errorEnvelope) freshWorld
      = (Inr \<lparr>status = Some (JStr ''error''), message = Some (JStr ''Vehicle not found''),
               error = None, data = None\<rparr>,
         freshWorld\<lparr>fetchLog := fetchLog freshWorld
                       @ [buildRequest V1_0_0 deployment ''/vehicles'' GET None]\<rparr>)"
    by (intro attempts_first_success) (simp_all add: deployment_def GOOGLE_CONFIG_def)
  then show ?thesis
    by (simp add: makeApiRequest_def deployment_def GOOGLE_CONFIG_def freshWorld_def)
qed

lemma makeApiRequest_exhausted:
  assumes "webAppUrl cfg \<noteq> ''''"
      and "\<forall>i < retryAttempts cfg.
             isl (settle rv (net (length (fetchLog w) + i) (buildRequest rv cfg action method payload)))"
  shows "run (makeApiRequest rv cfg action method payload) net w =
           (Inl (if retryAttempts cfg = 0 then Undefined
                 else projl (settle rv (net (length (fetchLog w) + (retryAttempts cfg - 1))
                                          (buildRequest rv cfg action method payload)))),
            w\<lparr>fetchLog := fetchLog w @ replicate (retryAttempts cfg) (buildRequest rv cfg action method payload),
              timerLog := timerLog w @ map (\<lambda>n. retryDelay cfg * n) [1 ..< retryAttempts cfg]\<rparr>)"
proof -
  let ?req = "buildRequest rv cfg action method payload"
  have "\<forall>i. 1 + i \<le> retryAttempts cfg \<longrightarrow> isl (settle rv (net (length (fetchLog w) + i) ?req))"
    using assms(2) by auto
  then have "run (attempts rv cfg ?req 1 Undefined) net w =
           (Inl (if retryAttempts cfg < 1 then Undefined
                 else projl (settle rv (net (length (fetchLog w) + (retryAttempts cfg - 1)) ?req))),
            w\<lparr>fetchLog := fetchLog w @ replicate (retryAttempts cfg + 1 - 1) ?req,
              timerLog := timerLog w @ map (\<lambda>n. retryDelay cfg * n) [1 ..< retryAttempts cfg]\<rparr>)"
    by (intro attempts_exhausted) simp_all
  with assms(1) show ?thesis by (auto simp: makeApiRequest_def)
qed

lemma run_pullAndMerge_failed:
  assumes "fst (run pull net w) = Inl e"
  shows "run (pullAndMerge pull key idField) net w = (Inl e, snd (run pull net w))"
proof -
  obtain w' where "run pull net w = (Inl e, w')"
    using assms by (cases "run pull net w") auto
  then show ?thesis
    by (simp add: pullAndMerge_def run_rethrow run_andThen)
qed

lemma run_pullAndMerge_rows:
  assumes "run pull net w = (Inr response, w1)"
      and "data response = Some (Rows remote)"
      and "APP w1"
  shows "run (pullAndMerge pull key idField) net w =
           (Inr (), setState key (mergeData (storedOrEmpty w1 key) remote idField)
                      (saveToStorage key (mergeData (storedOrEmpty w1 key) remote idField) w1))"
  using assms by (simp add: pullAndMerge_def run_rethrow run_andThen Let_def)

lemma newVehicle_fields:
  "newVehicle vehicleId vehicleData created updated ''created_date'' = Some (JStr created)"
  "newVehicle vehicleId vehicleData created updated ''last_updated'' = Some (JStr updated)"
  "vehicleData ''vehicle_id'' = None \<Longrightarrow>
     newVehicle vehicleId vehicleData created updated ''vehicle_id'' = Some (JStr vehicleId)"
  by (simp_all add: newVehicle_def map_add_def)

lemma run_saveLocally:
  assumes "APP w" and "\<not> quotaExceeded w"
  shows "run (saveLocally vehicle next) net w =
           run next net (setState ''vehicles'' (storedOrEmpty w ''vehicles'' @ [vehicle])
                          (saveToStorage ''vehicles'' (storedOrEmpty w ''vehicles'' @ [vehicle]) w))"
  using assms by (simp add: saveLocally_def Let_def)

lemma stored_after_save:
  "\<not> quotaExceeded w \<Longrightarrow>
     getFromStorage (setState key records (saveToStorage key records w)) key = Some records"
  by (simp add: getFromStorage_def setState_def saveToStorage_def)

lemma sameStore_getFromStorage: "sameStore w w' \<Longrightarrow> getFromStorage w' key = getFromStorage w key"
  by (simp add: sameStore_def getFromStorage_def)

lemma sameStore_storedOrEmpty: "sameStore w w' \<Longrightarrow> storedOrEmpty w' key = storedOrEmpty w key"
  by (simp add: sameStore_def storedOrEmpty_def getFromStorage_def)

lemma run_addVehicle_v100_stored:
  assumes "APP w" and "\<not> quotaExceeded w"
  shows "getFromStorage (snd (run (addVehicle_v100 cfg vehicleId created updated vehicleData) net w)) ''vehicles''
           = Some (storedOrEmpty w ''vehicles'' @ [newVehicle vehicleId vehicleData created updated])"
proof -
  let ?v = "newVehicle vehicleId vehicleData created updated"
  let ?vs = "storedOrEmpty w ''vehicles'' @ [?v]"
  let ?w1 = "setState ''vehicles'' ?vs (saveToStorage ''vehicles'' ?vs w)"
  let ?post = "makeApiRequest V1_0_0 cfg ''/vehicles'' POST (Some ?v)"
  have stored: "getFromStorage ?w1 ''vehicles'' = Some ?vs"
    using assms(2) by (rule stored_after_save)
  show ?thesis
  proof (cases "isOnline ?w1 \<and> webAppUrl cfg \<noteq> ''''")
    case False
    then show ?thesis
      using assms stored
      by (auto simp add: addVehicle_v100_def Let_def run_rethrow run_andThen run_saveLocally)
  next
    case True
    have "sameStore ?w1 (snd (run ?post net ?w1))" by (rule makeApiRequest_sameStore)
    then have "getFromStorage (snd (run ?post net ?w1)) ''vehicles'' = Some ?vs"
      using stored by (simp add: sameStore_getFromStorage)
    then show ?thesis
      using assms True
      by (cases "run ?post net ?w1")
         (auto simp add: addVehicle_v100_def Let_def run_rethrow run_andThen run_saveLocally
               split: sum.splits)
  qed
qed

lemma run_addVehicle_v104_stored:
  assumes "APP w" and "\<not> quotaExceeded w"
  shows "getFromStorage (snd (run (addVehicle_v104 cfg vehicleId created updated vehicleData) net w)) ''vehicles''
           = Some (storedOrEmpty w ''vehicles'' @ [newVehicle vehicleId vehicleData created updated])"
proof -
  let ?v = "newVehicle vehicleId vehicleData created updated"
  let ?post = "makeApiRequest V1_0_4 cfg ''vehicles'' POST (Some ?v)"
  have after: "getFromStorage
                 (setState ''vehicles'' (storedOrEmpty w1 ''vehicles'' @ [?v])
                    (saveToStorage ''vehicles'' (storedOrEmpty w1 ''vehicles'' @ [?v]) w1)) ''vehicles''
               = Some (storedOrEmpty w ''vehicles'' @ [?v])"
    if "sameStore w w1" for w1
  proof -
    from that have "\<not> quotaExceeded w1" using assms(2) by (simp add: sameStore_def)
    then show ?thesis using that by (simp add: stored_after_save sameStore_storedOrEmpty)
  qed
  show ?thesis
  proof (cases "isOnline w \<and> webAppUrl cfg \<noteq> ''''")
    case False
    then show ?thesis
      using assms after[OF sameStore_refl]
      by (auto simp add: addVehicle_v104_def Let_def run_rethrow run_andThen run_saveLocally)
  next
    case True
    obtain r w1 where post: "run ?post net w = (r, w1)" by (cases "run ?post net w") auto
    have same: "sameStore w w1"
      using makeApiRequest_sameStore[of w V1_0_4 cfg "''vehicles''" POST "Some ?v" net] post by simp
    then have "APP w1" "\<not> quotaExceeded w1" using assms by (simp_all add: sameStore_def)
    then show ?thesis
      using True post after[OF same]
      by (cases r)
         (simp_all add: addVehicle_v104_def Let_def run_rethrow run_andThen run_tryCatch run_saveLocally)
  qed
qed

lemma start_addVehicle_offline:
  assumes "add \<in> {addVehicle_v100, addVehicle_v104}"
      and "APP w" and "\<not> isOnline w"
  shows "start (add cfg vehicleId created updated vehicleData) w =
           (Return (newVehicle vehicleId vehicleData created updated),
            setState ''vehicles'' (storedOrEmpty w ''vehicles'' @ [newVehicle vehicleId vehicleData created updated])
              (saveToStorage ''vehicles''
                 (storedOrEmpty w ''vehicles'' @ [newVehicle vehicleId vehicleData created updated]) w))"
  using assms
  by (auto simp add: addVehicle_v100_def addVehicle_v104_def saveLocally_def Let_def
                     setState_def saveToStorage_def)

lemma run_deleteVehicle_local:
  assumes "APP w" and "\<not> quotaExceeded w"
      and "run (deleteVehicle cfg vehicleId) net w = (res, w1)"
  shows "getFromStorage w1 ''vehicles''
           = Some (filter (\<lambda>v. v ''vehicle_id'' \<noteq> Some (JStr vehicleId)) (storedOrEmpty w ''vehicles''))
         \<and> APP w1 \<and> \<not> quotaExceeded w1"
proof -
  let ?vs = "filter (\<lambda>v. v ''vehicle_id'' \<noteq> Some (JStr vehicleId)) (storedOrEmpty w ''vehicles'')"
  let ?w0 = "setState ''vehicles'' ?vs (saveToStorage ''vehicles'' ?vs w)"
  let ?del = "makeApiRequest V1_0_0 cfg (''/vehicles/'' @ vehicleId) DELETE None"
  have stored: "getFromStorage ?w0 ''vehicles'' = Some ?vs"
    using assms(2) by (rule stored_after_save)
  have flags: "APP ?w0" "\<not> quotaExceeded ?w0"
    using assms(1,2) by (simp_all add: setState_def saveToStorage_def)
  show ?thesis
  proof (cases "isOnline ?w0 \<and> webAppUrl cfg \<noteq> ''''")
    case False
    then have "w1 = ?w0"
      using assms by (auto simp add: deleteVehicle_def Let_def run_rethrow run_andThen)
    with stored flags show ?thesis by simp
  next
    case True
    have same: "sameStore ?w0 (snd (run ?del net ?w0))" by (rule makeApiRequest_sameStore)
    have "w1 = snd (run ?del net ?w0)"
      using assms True
      by (cases "run ?del net ?w0")
         (auto simp add: deleteVehicle_def Let_def run_rethrow run_andThen split: sum.splits)
    with same stored flags show ?thesis
      by (simp add: sameStore_getFromStorage) (simp add: sameStore_def)
  qed
qed

lemma mergeData_absent_mem:
  assumes "r \<in> set remote" and "r k \<notin> set (map (\<lambda>item. item k) localData)"
  shows "r \<in> set (mergeData localData remote k)"
  using assms by (simp add: mergeData_overlaid)

lemma flaky_delete:
  "run (deleteVehicle deployment ''v1'') flaky garage =
     (Inl (TransportError ''Failed to fetch''),
      garage\<lparr>localStorage := [''vehicles'' \<mapsto> []], appState := [''vehicles'' \<mapsto> []],
             fetchLog := replicate 3 (buildRequest V1_0_0 deployment ''/vehicles/v1'' DELETE None),
             timerLog := [1000, 2000]\<rparr>)"
proof -
  let ?w0 = "garage\<lparr>localStorage := [''vehicles'' \<mapsto> []], appState := [''vehicles'' \<mapsto> []]\<rparr>"
  have up: "[Suc 0 ..< 3] = [Suc 0, 2]" by (simp add: upt_rec)
  have "run (makeApiRequest V1_0_0 deployment ''/vehicles/v1'' DELETE None) flaky ?w0 =
          (Inl (if retryAttempts deployment = 0 then Undefined
                else projl (settle V1_0_0 (flaky (length (fetchLog ?w0) + (retryAttempts deployment - 1))
                      (buildRequest V1_0_0 deployment ''/vehicles/v1'' DELETE None)))),
           ?w0\<lparr>fetchLog := fetchLog ?w0 @ replicate (retryAttempts deployment)
                                (buildRequest V1_0_0 deployment ''/vehicles/v1'' DELETE None),
                timerLog := timerLog ?w0 @ map (\<lambda>n. retryDelay deployment * n) [1 ..< retryAttempts deployment]\<rparr>)"
    by (rule makeApiRequest_exhausted)
       (simp_all add: deployment_def GOOGLE_CONFIG_def garage_def freshWorld_def flaky_def settle_def)
  then have "run (makeApiRequest V1_0_0 deployment ''/vehicles/v1'' DELETE None) flaky ?w0 =
          (Inl (TransportError ''Failed to fetch''),
           ?w0\<lparr>fetchLog := replicate 3 (buildRequest V1_0_0 deployment ''/vehicles/v1'' DELETE None),
                timerLog := [1000, 2000]\<rparr>)"
    by (simp add: deployment_def GOOGLE_CONFIG_def garage_def freshWorld_def flaky_def settle_def up)
  then show ?thesis
    by (simp add: deleteVehicle_def Let_def run_rethrow run_andThen storedOrEmpty_def
                  getFromStorage_def setState_def saveToStorage_def garage_def freshWorld_def
                  ford_def deployment_def GOOGLE_CONFIG_def)
qed

lemma flaky_pull:
  assumes "length (fetchLog w) = 3"
  shows "run (makeApiRequest V1_0_0 deployment (''/vehicles'' @ sinceQuery None) GET None) flaky w =
           (Inr \<lparr>status = None, message = None, error = None, data = Some (Rows [ford])\<rparr>,
            w\<lparr>fetchLog := fetchLog w @
                 [buildRequest V1_0_0 deployment (''/vehicles'' @ sinceQuery None) GET None]\<rparr>)"
proof -
  have "run (attempts V1_0_0 deployment
               (buildRequest V1_0_0 deployment (''/vehicles'' @ sinceQuery None) GET None) 1 Undefined)
          flaky w =
        (Inr \<lparr>status = None, message = None, error = None, data = Some (Rows [ford])\<rparr>,
         w\<lparr>fetchLog := fetchLog w @
              [buildRequest V1_0_0 deployment (''/vehicles'' @ sinceQuery None) GET None]\<rparr>)"
    by (rule attempts_first_success)
       (simp_all add: assms deployment_def GOOGLE_CONFIG_def flaky_def rowsResponse_def settle_def ok_def)
  then show ?thesis
    by (simp add: makeApiRequest_def deployment_def GOOGLE_CONFIG_def)
qed

lemma attempts_Fetch:
  assumes "attempt \<le> retryAttempts cfg"
  shows "attempts rv cfg req attempt lastError =
           Fetch req (\<lambda>out.
             case settle rv out of
               Inr result \<Rightarrow> Return result
             | Inl e \<Rightarrow>
                 if attempt < retryAttempts cfg
                 then Sleep (retryDelay cfg * attempt) (attempts rv cfg req (attempt + 1) e)
                 else attempts rv cfg req (attempt + 1) e)"
  using assms by (subst attempts.simps) simp

lemma start_syncVehicles_v104:
  assumes "webAppUrl cfg \<noteq> ''''" and "0 < retryAttempts cfg"
  shows "awaiting (fst (start (syncVehicles_v104 cfg) w)) = Some (buildRequest V1_0_4 cfg ''vehicles'' GET None)"
    and "snd (start (syncVehicles_v104 cfg) w)
           = w\<lparr>fetchLog := fetchLog w @ [buildRequest V1_0_4 cfg ''vehicles'' GET None]\<rparr>"
proof -
  have "Suc 0 \<le> retryAttempts cfg" using assms(2) by simp
  note f = attempts_Fetch[OF this]
  show "awaiting (fst (start (syncVehicles_v104 cfg) w)) = Some (buildRequest V1_0_4 cfg ''vehicles'' GET None)"
    using assms(1) by (simp add: syncVehicles_v104_def pullAndMerge_def makeApiRequest_def f)
  show "snd (start (syncVehicles_v104 cfg) w)
           = w\<lparr>fetchLog := fetchLog w @ [buildRequest V1_0_4 cfg ''vehicles'' GET None]\<rparr>"
    using assms(1) by (simp add: syncVehicles_v104_def pullAndMerge_def makeApiRequest_def f)
qed

lemma start_syncData_v104:
  assumes "webAppUrl cfg \<noteq> ''''" and "0 < retryAttempts cfg" and "isOnline w"
  shows "awaiting (fst (start (syncData_v104 cfg now) w)) = Some (buildRequest V1_0_4 cfg '''' GET None)"
    and "snd (start (syncData_v104 cfg now) w)
           = w\<lparr>fetchLog := fetchLog w @ [buildRequest V1_0_4 cfg '''' GET None]\<rparr>"
proof -
  have "Suc 0 \<le> retryAttempts cfg" using assms(2) by simp
  note f = attempts_Fetch[OF this]
  show "awaiting (fst (start (syncData_v104 cfg now) w)) = Some (buildRequest V1_0_4 cfg '''' GET None)"
    using assms(1,3) by (simp add: syncData_v104_def makeApiRequest_def f)
  show "snd (start (syncData_v104 cfg now) w)
           = w\<lparr>fetchLog := fetchLog w @ [buildRequest V1_0_4 cfg '''' GET None]\<rparr>"
    using assms(1,3) by (simp add: syncData_v104_def makeApiRequest_def f)
qed

lemma resume_syncData_v104:
  assumes "webAppUrl cfg \<noteq> ''''" and "0 < retryAttempts cfg" and "isOnline w"
      and "settle V1_0_4 out = Inr result"
  shows "snd (resume (fst (start (syncData_v104 cfg now) w)) out v)
           = v\<lparr>fetchLog := fetchLog v @ [buildRequest V1_0_4 cfg ''vehicles'' GET None]\<rparr>"
proof -
  have "Suc 0 \<le> retryAttempts cfg" using assms(2) by simp
  note f = attempts_Fetch[OF this]
  show ?thesis
    using assms(1,3,4)
    by (simp add: syncData_v104_def syncVehicles_v104_def pullAndMerge_def makeApiRequest_def f)
qed

section \<open>Properties of the backend\<close>

lemma date_ge_iff: "date_ge a b \<longleftrightarrow> (\<exists>t s. a = Date t \<and> b = Date s \<and> s \<le> t)"
  by (cases a; cases b) (simp_all add: date_ge_def)

lemma rowObject_foldl:
  "foldl (\<lambda>obj (header, cell). obj(header \<mapsto> cell)) m (zip hs (map f hs)) h
     = (if h \<in> set hs then Some (f h) else m h)"
  by (induction hs arbitrary: m) auto

lemma rowObject_map: "h \<in> set hs \<Longrightarrow> rowObject hs (map f hs) h = Some (f h)"
  by (simp add: rowObject_def rowObject_foldl)

lemma foldl_update_map_of:
  "foldl (\<lambda>obj (header, cell). obj(header \<mapsto> cell)) m ps = m ++ map_of (rev ps)"
proof (induction ps arbitrary: m)
  case Nil
  show ?case by simp
next
  case (Cons p ps)
  obtain h c where p: "p = (h, c)" by (cases p)
  have "foldl (\<lambda>obj (header, cell). obj(header \<mapsto> cell)) m (p # ps)
      = foldl (\<lambda>obj (header, cell). obj(header \<mapsto> cell)) (m(h \<mapsto> c)) ps"
    by (simp add: p)
  also have "\<dots> = m(h \<mapsto> c) ++ map_of (rev ps)"
    by (rule Cons.IH)
  also have "\<dots> = m ++ map_of (rev (p # ps))"
    by (rule ext) (simp add: p map_add_def split: option.splits)
  finally show ?case .
qed

lemma rowObject_map_of: "rowObject hs row = map_of (rev (zip hs row))"
  by (simp add: rowObject_def foldl_update_map_of)

lemma isoTime_stamps:
  "isoTime ''2025-08-19T10:00:00.000Z'' = Some 1755597600000"
  "isoTime ''2025-08-19T10:00:10.000Z'' = Some 1755597610000"
  by (simp_all add: isoTime_def digitsAt_def daysFromEpoch_def daysInMonth_def leapYear_def)

lemma orElse_same: "orElse (Some (JStr s)) (JStr '''') = JStr s"
  by (simp add: orElse_def truthy_def)

lemma storeRecord_result:
  assumes "headers sh \<noteq> []"
  shows "storeRecord sh record =
           Inr (record, sh\<lparr>rows := rows sh @ [map (\<lambda>header. orElse (record header) (JStr '''')) (headers sh)]\<rparr>)"
  using assms by (simp add: storeRecord_def appendRow_def)

section \<open>The claims\<close>

text \<open>
  C1. A local record and a remote record that share an id are merged into a single
  record: every field the remote record states takes the remote value, and every field
  only the local record has keeps its local value. This holds for the two records alone
  and inside collections whose ids are unique. The instance merges
  \<^verbatim>\<open>{id:1, a:"x", b:"y"}\<close> with \<^verbatim>\<open>{id:1, a:"z"}\<close> into \<^verbatim>\<open>{id:1, a:"z", b:"y"}\<close>.
\<close>

theorem merge_remote_field_wins:
  assumes "l idField = r idField"
  shows "(\<exists>m. mergeData [l] [r] idField = [m]
            \<and> (\<forall>field v. r field = Some v \<longrightarrow> m field = Some v)
            \<and> (\<forall>field. r field = None \<longrightarrow> m field = l field))
         \<and> (distinct (map (\<lambda>item. item idField) localData)
              \<and> distinct (map (\<lambda>item. item idField) remoteData)
              \<and> l \<in> set localData \<and> r \<in> set remoteData \<longrightarrow>
             (\<exists>m. filter (\<lambda>item. item idField = r idField) (mergeData localData remoteData idField) = [m]
                \<and> (\<forall>field v. r field = Some v \<longrightarrow> m field = Some v)
                \<and> (\<forall>field. r field = None \<longrightarrow> m field = l field)))"
proof -
  have remote: "\<forall>field v. r field = Some v \<longrightarrow> (l ++ r) field = Some v"
    by (simp add: map_add_def)
  have local: "\<forall>field. r field = None \<longrightarrow> (l ++ r) field = l field"
    by (simp add: map_add_def)
  have two: "mergeData [l] [r] idField = [l ++ r]"
    using assms by (simp add: mergeData_def mergeItem_def)
  have many: "filter (\<lambda>item. item idField = r idField) (mergeData localData remoteData idField) = [l ++ r]"
    if "distinct (map (\<lambda>item. item idField) localData)"
       "distinct (map (\<lambda>item. item idField) remoteData)"
       "l \<in> set localData" "r \<in> set remoteData"
    using that assms by (rule mergeData_single)
  from two many remote local show ?thesis by blast
qed

theorem merge_remote_field_wins_witness:
  "[''id'' \<mapsto> JNum 1, ''a'' \<mapsto> JStr ''x'', ''b'' \<mapsto> JStr ''y''] ''id''
       = [''id'' \<mapsto> JNum 1, ''a'' \<mapsto> JStr ''z''] ''id''
   \<and> distinct (map (\<lambda>item. item ''id'')
         [[''id'' \<mapsto> JNum 1, ''a'' \<mapsto> JStr ''x'', ''b'' \<mapsto> JStr ''y'']])
   \<and> distinct (map (\<lambda>item. item ''id'') [[''id'' \<mapsto> JNum 1, ''a'' \<mapsto> JStr ''z'']])
   \<and> mergeData [[''id'' \<mapsto> JNum 1, ''a'' \<mapsto> JStr ''x'', ''b'' \<mapsto> JStr ''y'']]
        [[''id'' \<mapsto> JNum 1, ''a'' \<mapsto> JStr ''z'']] ''id''
       = [[''id'' \<mapsto> JNum 1, ''a'' \<mapsto> JStr ''z'', ''b'' \<mapsto> JStr ''y'']]
   \<and> filter (\<lambda>item. item ''id'' = Some (JNum 1))
        (mergeData [[''id'' \<mapsto> JNum 1, ''a'' \<mapsto> JStr ''x'', ''b'' \<mapsto> JStr ''y'']]
           [[''id'' \<mapsto> JNum 1, ''a'' \<mapsto> JStr ''z'']] ''id'')
       = [[''id'' \<mapsto> JNum 1, ''a'' \<mapsto> JStr ''z'', ''b'' \<mapsto> JStr ''y'']]"
proof -
  define l :: jsobj where "l = [''id'' \<mapsto> JNum 1, ''a'' \<mapsto> JStr ''x'', ''b'' \<mapsto> JStr ''y'']"
  define r :: jsobj where "r = [''id'' \<mapsto> JNum 1, ''a'' \<mapsto> JStr ''z'']"
  define expected :: jsobj where
    "expected = [''id'' \<mapsto> JNum 1, ''a'' \<mapsto> JStr ''z'', ''b'' \<mapsto> JStr ''y'']"
  have same: "l ''id'' = r ''id''" and rid: "r ''id'' = Some (JNum 1)"
    by (simp_all add: l_def r_def)
  have unique: "distinct (map (\<lambda>item. item ''id'') [l])" "distinct (map (\<lambda>item. item ''id'') [r])"
    by simp_all
  note inst = merge_remote_field_wins[where l = l and r = r and idField = "''id''"
      and localData = "[l]" and remoteData = "[r]"]
  have fields: "m = expected"
    if remote: "\<forall>field v. r field = Some v \<longrightarrow> m field = Some v"
    and local: "\<forall>field. r field = None \<longrightarrow> m field = l field" for m
  proof (rule ext)
    fix field
    show "m field = expected field"
    proof (cases "r field")
      case None
      with local have "m field = l field" by simp
      with None show ?thesis by (auto simp: l_def r_def expected_def split: if_splits)
    next
      case (Some v)
      with remote have "m field = Some v" by simp
      with Some show ?thesis by (auto simp: r_def expected_def split: if_splits)
    qed
  qed
  from same inst obtain m where "mergeData [l] [r] ''id'' = [m]"
    and "\<forall>field v. r field = Some v \<longrightarrow> m field = Some v"
    and "\<forall>field. r field = None \<longrightarrow> m field = l field"
    by auto
  then have two: "mergeData [l] [r] ''id'' = [expected]" using fields by simp
  from same unique inst obtain m' where
    "filter (\<lambda>item. item ''id'' = r ''id'') (mergeData [l] [r] ''id'') = [m']"
    and "\<forall>field v. r field = Some v \<longrightarrow> m' field = Some v"
    and "\<forall>field. r field = None \<longrightarrow> m' field = l field"
    by auto
  then have many: "filter (\<lambda>item. item ''id'' = Some (JNum 1)) (mergeData [l] [r] ''id'') = [expected]"
    using fields rid by simp
  from same unique two many show ?thesis
    unfolding l_def r_def expected_def by simp
qed

text \<open>
  C2 (amended). Merging the same remote list a second time changes nothing, provided no
  two remote records whose id is absent from the local list share that id. Without the
  proviso the second pass lays the later duplicate over the earlier one, which the first
  pass had appended unchanged.
\<close>

theorem merge_idempotent_distinct_new_ids:
  assumes "distinct (map (\<lambda>r. r idField)
             (filter (\<lambda>r. r idField \<notin> set (map (\<lambda>item. item idField) localData)) remoteData))"
  shows "mergeData (mergeData localData remoteData idField) remoteData idField
           = mergeData localData remoteData idField"
  using assms by (rule mergeData_twice)

theorem merge_idempotent_distinct_new_ids_witness:
  "distinct (map (\<lambda>r. r ''id'')
     (filter (\<lambda>r. r ''id'' \<notin> set (map (\<lambda>item. item ''id'') [[''id'' \<mapsto> JNum 1, ''a'' \<mapsto> JStr ''x'']]))
        [[''id'' \<mapsto> JNum 1, ''a'' \<mapsto> JStr ''z''], [''id'' \<mapsto> JNum 2]]))
   \<and> mergeData (mergeData [[''id'' \<mapsto> JNum 1, ''a'' \<mapsto> JStr ''x'']]
                  [[''id'' \<mapsto> JNum 1, ''a'' \<mapsto> JStr ''z''], [''id'' \<mapsto> JNum 2]] ''id'')
        [[''id'' \<mapsto> JNum 1, ''a'' \<mapsto> JStr ''z''], [''id'' \<mapsto> JNum 2]] ''id''
     = mergeData [[''id'' \<mapsto> JNum 1, ''a'' \<mapsto> JStr ''x'']]
         [[''id'' \<mapsto> JNum 1, ''a'' \<mapsto> JStr ''z''], [''id'' \<mapsto> JNum 2]] ''id''"
proof -
  have d: "distinct (map (\<lambda>r. r ''id'')
     (filter (\<lambda>r. r ''id'' \<notin> set (map (\<lambda>item. item ''id'') [[''id'' \<mapsto> JNum 1, ''a'' \<mapsto> JStr ''x'']]))
        [[''id'' \<mapsto> JNum 1, ''a'' \<mapsto> JStr ''z''], [''id'' \<mapsto> JNum 2]]))"
    by simp
  from d merge_idempotent_distinct_new_ids[OF d] show ?thesis by simp
qed

theorem merge_idempotence_counterexample:
  "mergeData (mergeData [] [[''id'' \<mapsto> JNum 1, ''a'' \<mapsto> JStr ''x''], [''id'' \<mapsto> JNum 1, ''a'' \<mapsto> JStr ''y'']] ''id'')
      [[''id'' \<mapsto> JNum 1, ''a'' \<mapsto> JStr ''x''], [''id'' \<mapsto> JNum 1, ''a'' \<mapsto> JStr ''y'']] ''id''
   \<noteq> mergeData [] [[''id'' \<mapsto> JNum 1, ''a'' \<mapsto> JStr ''x''], [''id'' \<mapsto> JNum 1, ''a'' \<mapsto> JStr ''y'']] ''id''"
proof
  assume eq: "mergeData (mergeData [] [[''id'' \<mapsto> JNum 1, ''a'' \<mapsto> JStr ''x''], [''id'' \<mapsto> JNum 1, ''a'' \<mapsto> JStr ''y'']] ''id'')
      [[''id'' \<mapsto> JNum 1, ''a'' \<mapsto> JStr ''x''], [''id'' \<mapsto> JNum 1, ''a'' \<mapsto> JStr ''y'']] ''id''
   = mergeData [] [[''id'' \<mapsto> JNum 1, ''a'' \<mapsto> JStr ''x''], [''id'' \<mapsto> JNum 1, ''a'' \<mapsto> JStr ''y'']] ''id''"
  have "map (\<lambda>m. m ''a'') (mergeData (mergeData [] [[''id'' \<mapsto> JNum 1, ''a'' \<mapsto> JStr ''x''], [''id'' \<mapsto> JNum 1, ''a'' \<mapsto> JStr ''y'']] ''id'')
      [[''id'' \<mapsto> JNum 1, ''a'' \<mapsto> JStr ''x''], [''id'' \<mapsto> JNum 1, ''a'' \<mapsto> JStr ''y'']] ''id'')
      = [Some (JStr ''y''), Some (JStr ''y'')]"
    by (simp add: mergeData_def mergeItem_def)
  moreover have "map (\<lambda>m. m ''a'') (mergeData [] [[''id'' \<mapsto> JNum 1, ''a'' \<mapsto> JStr ''x''], [''id'' \<mapsto> JNum 1, ''a'' \<mapsto> JStr ''y'']] ''id'')
      = [Some (JStr ''x''), Some (JStr ''y'')]"
    by (simp add: mergeData_def mergeItem_def)
  ultimately show False using eq by simp
qed

text \<open>
  C3 (amended). After \<^verbatim>\<open>deleteVehicle\<close> has removed a record from the local store and its
  remote \<^verbatim>\<open>DELETE\<close> has failed, the record is absent locally; a following
  \<^verbatim>\<open>syncVehicles\<close> whose pull still returns the record's row appends that row, so the
  record is back in the local store. The client keeps no trace of a local delete.
\<close>

theorem pull_after_failed_remote_delete_restores_record:
  assumes "APP w" and "\<not> quotaExceeded w"
      and "run (deleteVehicle cfg vehicleId) net w = (Inl e, w1)"
      and "run (makeApiRequest V1_0_0 cfg (''/vehicles'' @ sinceQuery lastSync) GET None) net w1
             = (Inr response, w2)"
      and "data response = Some (Rows remote)"
      and "row \<in> set remote" and "row ''vehicle_id'' = Some (JStr vehicleId)"
  shows "(\<forall>v \<in> set (storedOrEmpty w1 ''vehicles''). v ''vehicle_id'' \<noteq> Some (JStr vehicleId))
         \<and> (\<exists>w3. run (syncVehicles cfg lastSync) net w1 = (Inr (), w3)
                  \<and> row \<in> set (storedOrEmpty w3 ''vehicles''))"
proof -
  let ?pull = "makeApiRequest V1_0_0 cfg (''/vehicles'' @ sinceQuery lastSync) GET None"
  from run_deleteVehicle_local[OF assms(1,2,3)]
  have stored1: "getFromStorage w1 ''vehicles''
           = Some (filter (\<lambda>v. v ''vehicle_id'' \<noteq> Some (JStr vehicleId)) (storedOrEmpty w ''vehicles''))"
    and flags1: "APP w1" "\<not> quotaExceeded w1" by simp_all
  have local1: "storedOrEmpty w1 ''vehicles''
           = filter (\<lambda>v. v ''vehicle_id'' \<noteq> Some (JStr vehicleId)) (storedOrEmpty w ''vehicles'')"
    unfolding storedOrEmpty_def[of w1] using stored1 flags1(1) by simp
  then have gone: "\<forall>v \<in> set (storedOrEmpty w1 ''vehicles''). v ''vehicle_id'' \<noteq> Some (JStr vehicleId)"
    by simp
  have same: "sameStore w1 w2"
    using makeApiRequest_sameStore[of w1 V1_0_0 cfg "''/vehicles'' @ sinceQuery lastSync" GET None net]
          assms(4) by simp
  then have flags2: "APP w2" "\<not> quotaExceeded w2" using flags1 by (simp_all add: sameStore_def)
  have local2: "storedOrEmpty w2 ''vehicles'' = storedOrEmpty w1 ''vehicles''"
    using same by (rule sameStore_storedOrEmpty)
  let ?merged = "mergeData (storedOrEmpty w2 ''vehicles'') remote ''vehicle_id''"
  let ?w3 = "setState ''vehicles'' ?merged (saveToStorage ''vehicles'' ?merged w2)"
  have run3: "run (syncVehicles cfg lastSync) net w1 = (Inr (), ?w3)"
    unfolding syncVehicles_def by (rule run_pullAndMerge_rows[OF assms(4,5) flags2(1)])
  have "row ''vehicle_id'' \<notin> set (map (\<lambda>item. item ''vehicle_id'') (storedOrEmpty w2 ''vehicles''))"
    using gone assms(7) unfolding local2 by auto
  then have "row \<in> set ?merged" using assms(6) by (intro mergeData_absent_mem)
  moreover have "storedOrEmpty ?w3 ''vehicles'' = ?merged"
    using flags2 stored_after_save[OF flags2(2), of "''vehicles''" ?merged]
    by (simp add: storedOrEmpty_def) (simp add: setState_def saveToStorage_def)
  ultimately show ?thesis using gone run3 by simp
qed

theorem pull_after_failed_remote_delete_restores_record_witness:
  "APP garage \<and> \<not> quotaExceeded garage
   \<and> fst (run (deleteVehicle deployment ''v1'') flaky garage) = Inl (TransportError ''Failed to fetch'')
   \<and> fst (run (makeApiRequest V1_0_0 deployment (''/vehicles'' @ sinceQuery None) GET None) flaky
             (snd (run (deleteVehicle deployment ''v1'') flaky garage)))
       = Inr \<lparr>status = None, message = None, error = None, data = Some (Rows [ford])\<rparr>
   \<and> ford ''vehicle_id'' = Some (JStr ''v1'')
   \<and> storedOrEmpty (snd (run (deleteVehicle deployment ''v1'') flaky garage)) ''vehicles'' = []
   \<and> (\<exists>w3. run (syncVehicles deployment None) flaky
               (snd (run (deleteVehicle deployment ''v1'') flaky garage)) = (Inr (), w3)
            \<and> ford \<in> set (storedOrEmpty w3 ''vehicles''))"
proof -
  define w1 where "w1 = snd (run (deleteVehicle deployment ''v1'') flaky garage)"
  define response where
    "response = \<lparr>status = None, message = None, error = None, data = Some (Rows [ford])\<rparr>"
  have flags: "APP garage" "\<not> quotaExceeded garage"
    by (simp_all add: garage_def freshWorld_def)
  have del: "run (deleteVehicle deployment ''v1'') flaky garage = (Inl (TransportError ''Failed to fetch''), w1)"
    unfolding w1_def by (simp add: flaky_delete)
  have len: "length (fetchLog w1) = 3"
    unfolding w1_def by (simp add: flaky_delete)
  have pull: "run (makeApiRequest V1_0_0 deployment (''/vehicles'' @ sinceQuery None) GET None) flaky w1
                = (Inr response,
                   w1\<lparr>fetchLog := fetchLog w1 @
                        [buildRequest V1_0_0 deployment (''/vehicles'' @ sinceQuery None) GET None]\<rparr>)"
    unfolding response_def using len by (rule flaky_pull)
  have rows: "data response = Some (Rows [ford])" by (simp add: response_def)
  have id: "ford ''vehicle_id'' = Some (JStr ''v1'')" by (simp add: ford_def)
  have mem: "ford \<in> set [ford]" by simp
  have "w1 = garage\<lparr>localStorage := [''vehicles'' \<mapsto> []], appState := [''vehicles'' \<mapsto> []],
             fetchLog := replicate 3 (buildRequest V1_0_0 deployment ''/vehicles/v1'' DELETE None),
             timerLog := [1000, 2000]\<rparr>"
    unfolding w1_def by (simp add: flaky_delete)
  then have gone: "storedOrEmpty w1 ''vehicles'' = []"
    by (simp add: storedOrEmpty_def getFromStorage_def garage_def freshWorld_def)
  note inst = pull_after_failed_remote_delete_restores_record[OF flags del pull rows mem id]
  show ?thesis
    using flags del pull id gone inst unfolding w1_def[symmetric] response_def[symmetric] by simp
qed

theorem deleted_record_resurrected_counterexample:
  "fst (run (deleteVehicle deployment ''v1'') flaky garage) = Inl (TransportError ''Failed to fetch'')
   \<and> getFromStorage garage ''vehicles'' = Some [ford]
   \<and> getFromStorage (snd (run (deleteVehicle deployment ''v1'') flaky garage)) ''vehicles'' = Some []
   \<and> getFromStorage (snd (run (syncVehicles deployment None) flaky
                            (snd (run (deleteVehicle deployment ''v1'') flaky garage)))) ''vehicles''
       = Some [ford]"
proof -
  define w1 where "w1 = snd (run (deleteVehicle deployment ''v1'') flaky garage)"
  have w1: "w1 = garage\<lparr>localStorage := [''vehicles'' \<mapsto> []], appState := [''vehicles'' \<mapsto> []],
             fetchLog := replicate 3 (buildRequest V1_0_0 deployment ''/vehicles/v1'' DELETE None),
             timerLog := [1000, 2000]\<rparr>"
    unfolding w1_def by (simp add: flaky_delete)
  have len: "length (fetchLog w1) = 3" by (simp add: w1)
  have app: "APP (w1\<lparr>fetchLog := fetchLog w1 @
                        [buildRequest V1_0_0 deployment (''/vehicles'' @ sinceQuery None) GET None]\<rparr>)"
    by (simp add: w1 garage_def freshWorld_def)
  have sync: "run (syncVehicles deployment None) flaky w1 =
          (Inr (),
           setState ''vehicles''
             (mergeData (storedOrEmpty (w1\<lparr>fetchLog := fetchLog w1 @
                        [buildRequest V1_0_0 deployment (''/vehicles'' @ sinceQuery None) GET None]\<rparr>) ''vehicles'')
                [ford] ''vehicle_id'')
             (saveToStorage ''vehicles''
                (mergeData (storedOrEmpty (w1\<lparr>fetchLog := fetchLog w1 @
                        [buildRequest V1_0_0 deployment (''/vehicles'' @ sinceQuery None) GET None]\<rparr>) ''vehicles'')
                   [ford] ''vehicle_id'')
                (w1\<lparr>fetchLog := fetchLog w1 @
                        [buildRequest V1_0_0 deployment (''/vehicles'' @ sinceQuery None) GET None]\<rparr>)))"
    unfolding syncVehicles_def
    by (rule run_pullAndMerge_rows[OF flaky_pull[OF len] _ app]) simp
  have "getFromStorage (snd (run (syncVehicles deployment None) flaky w1)) ''vehicles'' = Some [ford]"
    unfolding sync
    by (simp add: w1 garage_def freshWorld_def getFromStorage_def setState_def saveToStorage_def
                  storedOrEmpty_def mergeData_def mergeItem_def)
  moreover have "getFromStorage w1 ''vehicles'' = Some []"
    by (simp add: w1 getFromStorage_def)
  moreover have "getFromStorage garage ''vehicles'' = Some [ford]"
    by (simp add: garage_def getFromStorage_def)
  ultimately show ?thesis
    unfolding w1_def by (simp add: flaky_delete)
qed

text \<open>
  C4 (amended). No flag gates re-entry: when \<^verbatim>\<open>syncVehicles\<close> is called a second time
  while the first call still awaits its \<^verbatim>\<open>fetch\<close>, each call issues its own pull, two in
  total. The same holds for two overlapping calls of \<^verbatim>\<open>syncData\<close>: two connectivity
  probes, and once both are answered, two pulls.
\<close>

theorem back_to_back_syncs_issue_two_pulls:
  assumes "webAppUrl cfg \<noteq> ''''" and "0 < retryAttempts cfg"
      and "pull = buildRequest V1_0_4 cfg ''vehicles'' GET None"
      and "probe = buildRequest V1_0_4 cfg '''' GET None"
      and "start (syncVehicles_v104 cfg) w = (first, w1)"
      and "start (syncVehicles_v104 cfg) w1 = (second, w2)"
  shows "awaiting first = Some pull \<and> awaiting second = Some pull
         \<and> fetchLog w2 = fetchLog w @ [pull, pull]
         \<and> (isOnline w \<and> settle V1_0_4 out1 = Inr result1 \<and> settle V1_0_4 out2 = Inr result2 \<longrightarrow>
              fetchLog (snd (resume (fst (start (syncData_v104 cfg now2)
                                              (snd (start (syncData_v104 cfg now1) w)))) out2
                              (snd (resume (fst (start (syncData_v104 cfg now1) w)) out1
                                      (snd (start (syncData_v104 cfg now2)
                                              (snd (start (syncData_v104 cfg now1) w))))))))
                = fetchLog w @ [probe, probe, pull, pull])"
proof -
  have a: "awaiting first = Some pull" "w1 = w\<lparr>fetchLog := fetchLog w @ [pull]\<rparr>"
    using start_syncVehicles_v104[OF assms(1,2), of w] assms(3,5) by simp_all
  have b: "awaiting second = Some pull" "w2 = w1\<lparr>fetchLog := fetchLog w1 @ [pull]\<rparr>"
    using start_syncVehicles_v104[OF assms(1,2), of w1] assms(3,6) by simp_all
  have c: "fetchLog (snd (resume (fst (start (syncData_v104 cfg now2)
                                              (snd (start (syncData_v104 cfg now1) w)))) out2
                              (snd (resume (fst (start (syncData_v104 cfg now1) w)) out1
                                      (snd (start (syncData_v104 cfg now2)
                                              (snd (start (syncData_v104 cfg now1) w))))))))
                = fetchLog w @ [probe, probe, pull, pull]"
    if on: "isOnline w" and s1: "settle V1_0_4 out1 = Inr result1" and s2: "settle V1_0_4 out2 = Inr result2"
  proof -
    let ?v1 = "snd (start (syncData_v104 cfg now1) w)"
    let ?v2 = "snd (start (syncData_v104 cfg now2) ?v1)"
    have v1: "?v1 = w\<lparr>fetchLog := fetchLog w @ [probe]\<rparr>"
      unfolding assms(4) by (rule start_syncData_v104(2)[OF assms(1,2) on])
    then have on1: "isOnline ?v1" using on by simp
    have v2: "?v2 = ?v1\<lparr>fetchLog := fetchLog ?v1 @ [probe]\<rparr>"
      unfolding assms(4) by (rule start_syncData_v104(2)[OF assms(1,2) on1])
    let ?v3 = "snd (resume (fst (start (syncData_v104 cfg now1) w)) out1 ?v2)"
    have v3: "?v3 = ?v2\<lparr>fetchLog := fetchLog ?v2 @ [pull]\<rparr>"
      unfolding assms(3) by (rule resume_syncData_v104[OF assms(1,2) on s1])
    have v4: "snd (resume (fst (start (syncData_v104 cfg now2) ?v1)) out2 ?v3)
                = ?v3\<lparr>fetchLog := fetchLog ?v3 @ [pull]\<rparr>"
      unfolding assms(3) by (rule resume_syncData_v104[OF assms(1,2) on1 s2])
    show ?thesis
      unfolding v4 unfolding v3 unfolding v2 unfolding v1 by simp
  qed
  from a b c show ?thesis by simp
qed

theorem back_to_back_syncs_issue_two_pulls_witness:
  "webAppUrl deployment \<noteq> '''' \<and> 0 < retryAttempts deployment
   \<and> awaiting (fst (start (syncVehicles_v104 deployment) freshWorld))
       = Some (buildRequest V1_0_4 deployment ''vehicles'' GET None)
   \<and> awaiting (fst (start (syncVehicles_v104 deployment)
                       (snd (start (syncVehicles_v104 deployment) freshWorld))))
       = Some (buildRequest V1_0_4 deployment ''vehicles'' GET None)
   \<and> fetchLog (snd (start (syncVehicles_v104 deployment)
                       (snd (start (syncVehicles_v104 deployment) freshWorld))))
       = [buildRequest V1_0_4 deployment ''vehicles'' GET None,
          buildRequest V1_0_4 deployment ''vehicles'' GET None]
   \<and> isOnline freshWorld \<and> settle V1_0_4 (rowsResponse []) = Inr \<lparr>status = None, message = None, error = None, data = Some (Rows [])\<rparr>
   \<and> fetchLog (snd (resume (fst (start (syncData_v104 deployment 2000)
                                     (snd (start (syncData_v104 deployment 1000) freshWorld))))
                       (rowsResponse [])
                       (snd (resume (fst (start (syncData_v104 deployment 1000) freshWorld)) (rowsResponse [])
                               (snd (start (syncData_v104 deployment 2000)
                                       (snd (start (syncData_v104 deployment 1000) freshWorld))))))))
       = [buildRequest V1_0_4 deployment '''' GET None,
          buildRequest V1_0_4 deployment '''' GET None,
          buildRequest V1_0_4 deployment ''vehicles'' GET None,
          buildRequest V1_0_4 deployment ''vehicles'' GET None]"
proof -
  have u: "webAppUrl deployment \<noteq> ''''" and n: "0 < retryAttempts deployment"
    by (simp_all add: deployment_def GOOGLE_CONFIG_def)
  have on: "isOnline freshWorld" and log: "fetchLog freshWorld = []"
    by (simp_all add: freshWorld_def)
  have s: "settle V1_0_4 (rowsResponse []) = Inr \<lparr>status = None, message = None, error = None, data = Some (Rows [])\<rparr>"
    by (simp add: settle_def rowsResponse_def ok_def)
  note inst = back_to_back_syncs_issue_two_pulls[OF u n refl refl surjective_pairing surjective_pairing,
      of freshWorld "rowsResponse []" _ "rowsResponse []" _ 2000 1000]
  show ?thesis
    using u n on s inst by (simp add: log)
qed

theorem single_pull_counterexample:
  "awaiting (fst (start (syncVehicles_v104 deployment) freshWorld)) \<noteq> None
   \<and> fetchLog freshWorld = []
   \<and> length (fetchLog (snd (start (syncVehicles_v104 deployment)
                               (snd (start (syncVehicles_v104 deployment) freshWorld))))) = 2"
proof -
  have u: "webAppUrl deployment \<noteq> ''''" and n: "0 < retryAttempts deployment"
    by (simp_all add: deployment_def GOOGLE_CONFIG_def)
  show ?thesis
    by (simp add: start_syncVehicles_v104[OF u n]) (simp add: freshWorld_def)
qed

text \<open>
  C5. Revision 1.0.4, with the deployment URL configured. When every answer to the request
  is a failure, that is a rejected \<^verbatim>\<open>fetch\<close>, a status outside 200..299, a body that does
  not parse, or an envelope whose \<^verbatim>\<open>status\<close> is \<^verbatim>\<open>'error'\<close>, then \<^verbatim>\<open>makeApiRequest\<close>
  calls \<^verbatim>\<open>fetch\<close> exactly \<^verbatim>\<open>retryAttempts\<close> times with the same request, waits
  \<^verbatim>\<open>retryDelay * n\<close> after the \<open>n\<close>-th failure but the last, and rejects with the error
  of the last answer: the transport error, \<^verbatim>\<open>HTTP status: statusText\<close>, the parse error,
  or the envelope's \<^verbatim>\<open>message\<close> (\<^verbatim>\<open>'Unknown API error'\<close> when that is falsy). With the
  default configuration that is three attempts.
\<close>

theorem makeApiRequest_retry_bound:
  assumes "webAppUrl cfg \<noteq> ''''"
      and "\<forall>n. (\<exists>reason. net n (buildRequest V1_0_4 cfg action method payload) = Rejected reason)
             \<or> (\<exists>response. net n (buildRequest V1_0_4 cfg action method payload) = Resolved response
                   \<and> (http_status response < 200 \<or> 299 < http_status response
                        \<or> (\<exists>reason. json response = Malformed reason)
                        \<or> (\<exists>result. json response = Json result
                                     \<and> status result = Some (JStr ''error''))))"
  shows "\<exists>e w'. run (makeApiRequest V1_0_4 cfg action method payload) net w = (Inl e, w')
           \<and> fetchLog w' = fetchLog w @ replicate (retryAttempts cfg) (buildRequest V1_0_4 cfg action method payload)
           \<and> timerLog w' = timerLog w @ map (\<lambda>n. retryDelay cfg * n) [1 ..< retryAttempts cfg]
           \<and> (retryAttempts cfg = 0 \<longrightarrow> e = Undefined)
           \<and> (0 < retryAttempts cfg \<longrightarrow>
                e = (case net (length (fetchLog w) + (retryAttempts cfg - 1))
                               (buildRequest V1_0_4 cfg action method payload) of
                       Rejected reason \<Rightarrow> TransportError reason
                     | Resolved response \<Rightarrow>
                         if http_status response < 200 \<or> 299 < http_status response
                         then HttpError (http_status response) (statusText response)
                         else (case json response of
                                 Malformed reason \<Rightarrow> ParseError reason
                               | Json result \<Rightarrow>
                                   ApiError (orElse (message result) (JStr ''Unknown API error'')))))"
proof -
  let ?req = "buildRequest V1_0_4 cfg action method payload"
  let ?last = "net (length (fetchLog w) + (retryAttempts cfg - 1)) ?req"
  let ?thrown = "\<lambda>out. case out of
                       Rejected reason \<Rightarrow> TransportError reason
                     | Resolved response \<Rightarrow>
                         if http_status response < 200 \<or> 299 < http_status response
                         then HttpError (http_status response) (statusText response)
                         else (case json response of
                                 Malformed reason \<Rightarrow> ParseError reason
                               | Json result \<Rightarrow>
                                   ApiError (orElse (message result) (JStr ''Unknown API error'')))"
  have fails: "settle V1_0_4 (net n ?req) = Inl (?thrown (net n ?req))" for n
  proof (cases "net n ?req")
    case (Rejected reason)
    then show ?thesis by (simp add: settle_def)
  next
    case (Resolved response)
    with assms(2) have
      "http_status response < 200 \<or> 299 < http_status response
         \<or> (\<exists>reason. json response = Malformed reason)
         \<or> (\<exists>result. json response = Json result \<and> status result = Some (JStr ''error''))"
      by (metis fetch_outcome.distinct(1) fetch_outcome.inject(2))
    with Resolved show ?thesis
      by (auto simp: settle_def ok_def)
  qed
  then have "\<forall>i < retryAttempts cfg. isl (settle V1_0_4 (net (length (fetchLog w) + i) ?req))"
    by simp
  then have r: "run (makeApiRequest V1_0_4 cfg action method payload) net w =
           (Inl (if retryAttempts cfg = 0 then Undefined else projl (settle V1_0_4 ?last)),
            w\<lparr>fetchLog := fetchLog w @ replicate (retryAttempts cfg) ?req,
              timerLog := timerLog w @ map (\<lambda>n. retryDelay cfg * n) [1 ..< retryAttempts cfg]\<rparr>)"
    using assms(1) by (intro makeApiRequest_exhausted)
  have "projl (settle V1_0_4 ?last) = ?thrown ?last"
    unfolding fails by simp
  with r show ?thesis by auto
qed

theorem makeApiRequest_retry_bound_witness:
  "webAppUrl deployment \<noteq> ''''
   \<and> fst (run (makeApiRequest V1_0_4 deployment ''vehicles'' GET None) unreachable freshWorld)
       = Inl (TransportError ''Failed to fetch'')
   \<and> fetchLog (snd (run (makeApiRequest V1_0_4 deployment ''vehicles'' GET None) unreachable freshWorld))
       = replicate 3 (buildRequest V1_0_4 deployment ''vehicles'' GET None)
   \<and> timerLog (snd (run (makeApiRequest V1_0_4 deployment ''vehicles'' GET None) unreachable freshWorld))
       = [1000, 2000]
   \<and> fst (run (makeApiRequest V1_0_4 deployment ''vehicles'' GET None) (\<lambda>n r. serverError) freshWorld)
       = Inl (HttpError 500 ''Internal Server Error'')
   \<and> fetchLog (snd (run (makeApiRequest V1_0_4 deployment ''vehicles'' GET None) (\<lambda>n r. serverError) freshWorld))
       = replicate 3 (buildRequest V1_0_4 deployment ''vehicles'' GET None)
   \<and> timerLog (snd (run (makeApiRequest V1_0_4 deployment ''vehicles'' GET None) (\<lambda>n r. serverError) freshWorld))
       = [1000, 2000]
   \<and> fst (run (makeApiRequest V1_0_4 deployment ''vehicles'' GET None) (\<lambda>n r. errorEnvelope) freshWorld)
       = Inl (ApiError (JStr ''Vehicle not found''))
   \<and> fetchLog (snd (run (makeApiRequest V1_0_4 deployment ''vehicles'' GET None) (\<lambda>n r. errorEnvelope) freshWorld))
       = replicate 3 (buildRequest V1_0_4 deployment ''vehicles'' GET None)
   \<and> timerLog (snd (run (makeApiRequest V1_0_4 deployment ''vehicles'' GET None) (\<lambda>n r. errorEnvelope) freshWorld))
       = [1000, 2000]"
proof -
  let ?req = "buildRequest V1_0_4 deployment ''vehicles'' GET None"
  let ?call = "makeApiRequest V1_0_4 deployment ''vehicles'' GET None"
  have u: "webAppUrl deployment \<noteq> ''''"
    by (simp add: deployment_def GOOGLE_CONFIG_def)
  have n: "retryAttempts deployment = 3" "retryDelay deployment = 1000"
    by (simp_all add: deployment_def GOOGLE_CONFIG_def)
  have upt: "[1 ..< (3::nat)] = [1, 2]" by (simp add: upt_rec)
  have logs: "fetchLog freshWorld = []" "timerLog freshWorld = []"
    by (simp_all add: freshWorld_def)
  have a: "\<forall>n. (\<exists>reason. unreachable n ?req = Rejected reason)
             \<or> (\<exists>response. unreachable n ?req = Resolved response
                   \<and> (http_status response < 200 \<or> 299 < http_status response
                        \<or> (\<exists>reason. json response = Malformed reason)
                        \<or> (\<exists>result. json response = Json result
                                     \<and> status result = Some (JStr ''error''))))"
    by (simp add: unreachable_def)
  have b: "\<forall>n::nat. (\<exists>reason. serverError = Rejected reason)
             \<or> (\<exists>response. serverError = Resolved response
                   \<and> (http_status response < 200 \<or> 299 < http_status response
                        \<or> (\<exists>reason. json response = Malformed reason)
                        \<or> (\<exists>result. json response = Json result
                                     \<and> status result = Some (JStr ''error''))))"
    by (simp add: serverError_def)
  have c: "\<forall>n::nat. (\<exists>reason. errorEnvelope = Rejected reason)
             \<or> (\<exists>response. errorEnvelope = Resolved response
                   \<and> (http_status response < 200 \<or> 299 < http_status response
                        \<or> (\<exists>reason. json response = Malformed reason)
                        \<or> (\<exists>result. json response = Json result
                                     \<and> status result = Some (JStr ''error''))))"
    by (simp add: errorEnvelope_def)
  from makeApiRequest_retry_bound[of deployment unreachable "''vehicles''" GET None freshWorld, OF u a]
  have 1: "fst (run ?call unreachable freshWorld) = Inl (TransportError ''Failed to fetch'')
       \<and> fetchLog (snd (run ?call unreachable freshWorld)) = replicate 3 ?req
       \<and> timerLog (snd (run ?call unreachable freshWorld)) = [1000, 2000]"
    unfolding n upt logs by (auto simp: unreachable_def)
  from makeApiRequest_retry_bound[of deployment "\<lambda>n r. serverError" "''vehicles''" GET None freshWorld, OF u b]
  have 2: "fst (run ?call (\<lambda>n r. serverError) freshWorld) = Inl (HttpError 500 ''Internal Server Error'')
       \<and> fetchLog (snd (run ?call (\<lambda>n r. serverError) freshWorld)) = replicate 3 ?req
       \<and> timerLog (snd (run ?call (\<lambda>n r. serverError) freshWorld)) = [1000, 2000]"
    unfolding n upt logs by (auto simp: serverError_def)
  from makeApiRequest_retry_bound[of deployment "\<lambda>n r. errorEnvelope" "''vehicles''" GET None freshWorld, OF u c]
  have 3: "fst (run ?call (\<lambda>n r. errorEnvelope) freshWorld) = Inl (ApiError (JStr ''Vehicle not found''))
       \<and> fetchLog (snd (run ?call (\<lambda>n r. errorEnvelope) freshWorld)) = replicate 3 ?req
       \<and> timerLog (snd (run ?call (\<lambda>n r. errorEnvelope) freshWorld)) = [1000, 2000]"
    unfolding n upt logs by (auto simp: errorEnvelope_def orElse_def truthy_def)
  from u 1 2 3 show ?thesis by simp
qed

text \<open>
  C6. For each of the four collections (and for the vehicles pull of revision 1.0.4): when
  the pull of a sync rejects, the sync rejects with the same error and leaves both the
  stored collections and \<^verbatim>\<open>window.APP.state\<close> as they were.
\<close>

theorem failed_pull_leaves_store:
  assumes "(sync, pull) \<in>
            {(syncVehicles cfg lastSync,
                makeApiRequest V1_0_0 cfg (''/vehicles'' @ sinceQuery lastSync) GET None),
             (syncMaintenanceRecords cfg lastSync,
                makeApiRequest V1_0_0 cfg (''/maintenance'' @ sinceQuery lastSync) GET None),
             (syncReceipts cfg lastSync,
                makeApiRequest V1_0_0 cfg (''/receipts'' @ sinceQuery lastSync) GET None),
             (syncReminders cfg lastSync,
                makeApiRequest V1_0_0 cfg (''/reminders'' @ sinceQuery lastSync) GET None),
             (syncVehicles_v104 cfg, makeApiRequest V1_0_4 cfg ''vehicles'' GET None)}"
      and "fst (run pull net w) = Inl e"
  shows "fst (run sync net w) = Inl e
         \<and> localStorage (snd (run sync net w)) = localStorage w
         \<and> appState (snd (run sync net w)) = appState w"
proof -
  from assms(1) obtain rv action key idField where
    sync: "sync = pullAndMerge pull key idField" and
    pull: "pull = makeApiRequest rv cfg action GET None"
    by (auto simp: syncVehicles_def syncMaintenanceRecords_def syncReceipts_def
                   syncReminders_def syncVehicles_v104_def)
  have same: "run sync net w = (Inl e, snd (run pull net w))"
    unfolding sync using assms(2) by (rule run_pullAndMerge_failed)
  have "sameStore w (snd (run pull net w))"
    unfolding pull by (rule makeApiRequest_sameStore)
  then show ?thesis
    using assms(2) same by (simp add: sameStore_def)
qed

theorem failed_pull_leaves_store_witness:
  "(syncVehicles deployment None,
      makeApiRequest V1_0_0 deployment (''/vehicles'' @ sinceQuery None) GET None) \<in>
     {(syncVehicles deployment None,
         makeApiRequest V1_0_0 deployment (''/vehicles'' @ sinceQuery None) GET None),
      (syncMaintenanceRecords deployment None,
         makeApiRequest V1_0_0 deployment (''/maintenance'' @ sinceQuery None) GET None),
      (syncReceipts deployment None,
         makeApiRequest V1_0_0 deployment (''/receipts'' @ sinceQuery None) GET None),
      (syncReminders deployment None,
         makeApiRequest V1_0_0 deployment (''/reminders'' @ sinceQuery None) GET None),
      (syncVehicles_v104 deployment, makeApiRequest V1_0_4 deployment ''vehicles'' GET None)}
   \<and> fst (run (makeApiRequest V1_0_0 deployment (''/vehicles'' @ sinceQuery None) GET None) unreachable garage)
       = Inl (TransportError ''Failed to fetch'')
   \<and> fst (run (syncVehicles deployment None) unreachable garage) = Inl (TransportError ''Failed to fetch'')
   \<and> localStorage (snd (run (syncVehicles deployment None) unreachable garage)) = localStorage garage
   \<and> appState (snd (run (syncVehicles deployment None) unreachable garage)) = appState garage"
proof -
  have mem: "(syncVehicles deployment None,
      makeApiRequest V1_0_0 deployment (''/vehicles'' @ sinceQuery None) GET None) \<in>
     {(syncVehicles deployment None,
         makeApiRequest V1_0_0 deployment (''/vehicles'' @ sinceQuery None) GET None),
      (syncMaintenanceRecords deployment None,
         makeApiRequest V1_0_0 deployment (''/maintenance'' @ sinceQuery None) GET None),
      (syncReceipts deployment None,
         makeApiRequest V1_0_0 deployment (''/receipts'' @ sinceQuery None) GET None),
      (syncReminders deployment None,
         makeApiRequest V1_0_0 deployment (''/reminders'' @ sinceQuery None) GET None),
      (syncVehicles_v104 deployment, makeApiRequest V1_0_4 deployment ''vehicles'' GET None)}"
    by (rule insertI1)
  have "run (makeApiRequest V1_0_0 deployment (''/vehicles'' @ sinceQuery None) GET None) unreachable garage =
          (Inl (if retryAttempts deployment = 0 then Undefined
                else projl (settle V1_0_0 (unreachable (length (fetchLog garage) + (retryAttempts deployment - 1))
                      (buildRequest V1_0_0 deployment (''/vehicles'' @ sinceQuery None) GET None)))),
           garage\<lparr>fetchLog := fetchLog garage @ replicate (retryAttempts deployment)
                                (buildRequest V1_0_0 deployment (''/vehicles'' @ sinceQuery None) GET None),
                timerLog := timerLog garage @ map (\<lambda>n. retryDelay deployment * n) [1 ..< retryAttempts deployment]\<rparr>)"
    by (rule makeApiRequest_exhausted)
       (simp_all add: deployment_def GOOGLE_CONFIG_def unreachable_def settle_def)
  then have failed: "fst (run (makeApiRequest V1_0_0 deployment (''/vehicles'' @ sinceQuery None) GET None)
                            unreachable garage) = Inl (TransportError ''Failed to fetch'')"
    by (simp add: deployment_def GOOGLE_CONFIG_def unreachable_def settle_def)
  from mem failed failed_pull_leaves_store[OF mem failed] show ?thesis by blast
qed

text \<open>
  C7 (amended). For each of the four collections, a scan with a \<^verbatim>\<open>since\<close> date returns,
  in the order of the sheet, exactly the records of the rows under the header row whose
  freshness timestamp (\<^verbatim>\<open>last_updated\<close> for vehicles, \<^verbatim>\<open>created_date\<close> for the other
  collections) converts to a valid date at least as new as \<^verbatim>\<open>since\<close>: the comparison is
  \<^verbatim>\<open>>=\<close>, so a row stamped exactly \<^verbatim>\<open>since\<close> is returned. The record of a row maps each
  header to the cell of its column (the last such column when a header is repeated) and
  has no other key. Rows stamped \<open>T0\<close> and \<open>T0 + 10s\<close>, scanned with \<open>since = T0 + 5s\<close>, give
  exactly the second row.
\<close>

theorem scan_since_returns_rows_not_older:
  "getAllVehicles newDate sh (Some since)
     = filter (\<lambda>vehicle. \<exists>t s. newDate (vehicle ''last_updated'') = Date t \<and> since = Date s \<and> s \<le> t)
         (map (rowObject (headers sh)) (rows sh))
   \<and> getAllMaintenance newDate sh (Some since)
     = filter (\<lambda>record. \<exists>t s. newDate (record ''created_date'') = Date t \<and> since = Date s \<and> s \<le> t)
         (map (rowObject (headers sh)) (rows sh))
   \<and> getAllReceipts newDate sh (Some since)
     = filter (\<lambda>receipt. \<exists>t s. newDate (receipt ''created_date'') = Date t \<and> since = Date s \<and> s \<le> t)
         (map (rowObject (headers sh)) (rows sh))
   \<and> getAllReminders newDate sh (Some since)
     = filter (\<lambda>reminder. \<exists>t s. newDate (reminder ''created_date'') = Date t \<and> since = Date s \<and> s \<le> t)
         (map (rowObject (headers sh)) (rows sh))
   \<and> rowObject hs row = map_of (rev (zip hs row))"
  by (simp add: getAllVehicles_def getAllMaintenance_def getAllReceipts_def getAllReminders_def
                date_ge_iff rowObject_map_of)

theorem scan_since_returns_rows_not_older_witness:
  "\<forall>other.
     getAllVehicles (toDate other) twoVehicles (Some (Date 1755597605000))
       = [[''vehicle_id'' \<mapsto> JStr ''v2'', ''make'' \<mapsto> JStr ''Honda'',
           ''last_updated'' \<mapsto> JStr ''2025-08-19T10:00:10.000Z'']]
     \<and> getAllMaintenance (toDate other) twoLogs (Some (Date 1755597605000))
       = [[''log_id'' \<mapsto> JStr ''m2'', ''vehicle_id'' \<mapsto> JStr ''v1'',
           ''created_date'' \<mapsto> JStr ''2025-08-19T10:00:10.000Z'']]
     \<and> getAllReceipts (toDate other) twoLogs (Some (Date 1755597605000))
       = [[''log_id'' \<mapsto> JStr ''m2'', ''vehicle_id'' \<mapsto> JStr ''v1'',
           ''created_date'' \<mapsto> JStr ''2025-08-19T10:00:10.000Z'']]
     \<and> getAllReminders (toDate other) twoLogs (Some (Date 1755597605000))
       = [[''log_id'' \<mapsto> JStr ''m2'', ''vehicle_id'' \<mapsto> JStr ''v1'',
           ''created_date'' \<mapsto> JStr ''2025-08-19T10:00:10.000Z'']]"
proof
  fix other
  have vehicles: "map (rowObject (headers twoVehicles)) (rows twoVehicles)
     = [[''vehicle_id'' \<mapsto> JStr ''v1'', ''make'' \<mapsto> JStr ''Ford'',
         ''last_updated'' \<mapsto> JStr ''2025-08-19T10:00:00.000Z''],
        [''vehicle_id'' \<mapsto> JStr ''v2'', ''make'' \<mapsto> JStr ''Honda'',
         ''last_updated'' \<mapsto> JStr ''2025-08-19T10:00:10.000Z'']]"
    by (simp add: twoVehicles_def rowObject_def)
  have logs: "map (rowObject (headers twoLogs)) (rows twoLogs)
     = [[''log_id'' \<mapsto> JStr ''m1'', ''vehicle_id'' \<mapsto> JStr ''v1'',
         ''created_date'' \<mapsto> JStr ''2025-08-19T10:00:00.000Z''],
        [''log_id'' \<mapsto> JStr ''m2'', ''vehicle_id'' \<mapsto> JStr ''v1'',
         ''created_date'' \<mapsto> JStr ''2025-08-19T10:00:10.000Z'']]"
    by (simp add: twoLogs_def rowObject_def)
  show "getAllVehicles (toDate other) twoVehicles (Some (Date 1755597605000))
       = [[''vehicle_id'' \<mapsto> JStr ''v2'', ''make'' \<mapsto> JStr ''Honda'',
           ''last_updated'' \<mapsto> JStr ''2025-08-19T10:00:10.000Z'']]
     \<and> getAllMaintenance (toDate other) twoLogs (Some (Date 1755597605000))
       = [[''log_id'' \<mapsto> JStr ''m2'', ''vehicle_id'' \<mapsto> JStr ''v1'',
           ''created_date'' \<mapsto> JStr ''2025-08-19T10:00:10.000Z'']]
     \<and> getAllReceipts (toDate other) twoLogs (Some (Date 1755597605000))
       = [[''log_id'' \<mapsto> JStr ''m2'', ''vehicle_id'' \<mapsto> JStr ''v1'',
           ''created_date'' \<mapsto> JStr ''2025-08-19T10:00:10.000Z'']]
     \<and> getAllReminders (toDate other) twoLogs (Some (Date 1755597605000))
       = [[''log_id'' \<mapsto> JStr ''m2'', ''vehicle_id'' \<mapsto> JStr ''v1'',
           ''created_date'' \<mapsto> JStr ''2025-08-19T10:00:10.000Z'']]"
    using scan_since_returns_rows_not_older[of "toDate other" twoVehicles "Date 1755597605000"]
          scan_since_returns_rows_not_older[of "toDate other" twoLogs "Date 1755597605000"]
    unfolding vehicles logs by (simp add: toDate_def isoTime_stamps)
qed

theorem scan_since_strictly_newer_counterexample:
  "\<forall>other.
     toDate other (Some (JStr ''2025-08-19T10:00:10.000Z'')) = Date 1755597610000
     \<and> getAllVehicles (toDate other) twoVehicles (Some (Date 1755597610000))
       = [[''vehicle_id'' \<mapsto> JStr ''v2'', ''make'' \<mapsto> JStr ''Honda'',
           ''last_updated'' \<mapsto> JStr ''2025-08-19T10:00:10.000Z'']]
     \<and> filter (\<lambda>vehicle. \<exists>t. toDate other (vehicle ''last_updated'') = Date t \<and> 1755597610000 < t)
          (map (rowObject (headers twoVehicles)) (rows twoVehicles)) = []"
  by (simp add: getAllVehicles_def twoVehicles_def rowObject_def toDate_def isoTime_stamps date_ge_def)

text \<open>
  C8. With \<^verbatim>\<open>window.APP\<close> loaded and storage writable, \<^verbatim>\<open>addVehicle\<close> (either
  revision) called while offline returns synchronously, without calling \<^verbatim>\<open>fetch\<close>, and
  the new record is the last entry of the stored vehicles. The record carries both
  timestamps, and the generated id whenever the payload has no \<^verbatim>\<open>vehicle_id\<close> of its
  own. Whatever the network does when online, the record is stored once the call has
  settled.
\<close>

theorem create_offline_is_local:
  assumes "add \<in> {addVehicle_v100, addVehicle_v104}"
      and "APP w" and "\<not> quotaExceeded w"
      and "vehicle = newVehicle vehicleId vehicleData created updated"
  shows "(\<not> isOnline w \<longrightarrow>
            (\<exists>w'. start (add cfg vehicleId created updated vehicleData) w = (Return vehicle, w')
                 \<and> getFromStorage w' ''vehicles'' = Some (storedOrEmpty w ''vehicles'' @ [vehicle])
                 \<and> fetchLog w' = fetchLog w))
         \<and> (vehicleData ''vehicle_id'' = None \<longrightarrow> vehicle ''vehicle_id'' = Some (JStr vehicleId))
         \<and> vehicle ''created_date'' = Some (JStr created)
         \<and> vehicle ''last_updated'' = Some (JStr updated)
         \<and> (\<forall>net. getFromStorage (snd (run (add cfg vehicleId created updated vehicleData) net w)) ''vehicles''
                     = Some (storedOrEmpty w ''vehicles'' @ [vehicle]))"
proof -
  have offline: "\<exists>w'. start (add cfg vehicleId created updated vehicleData) w = (Return vehicle, w')
                 \<and> getFromStorage w' ''vehicles'' = Some (storedOrEmpty w ''vehicles'' @ [vehicle])
                 \<and> fetchLog w' = fetchLog w"
    if "\<not> isOnline w"
    using start_addVehicle_offline[OF assms(1,2) that, of cfg vehicleId created updated vehicleData]
          assms(3,4)
    by (simp add: stored_after_save) (simp add: setState_def saveToStorage_def)
  have always: "getFromStorage (snd (run (add cfg vehicleId created updated vehicleData) net w)) ''vehicles''
                     = Some (storedOrEmpty w ''vehicles'' @ [vehicle])" for net
    using assms run_addVehicle_v100_stored run_addVehicle_v104_stored by auto
  show ?thesis
    using offline always by (simp add: assms(4) newVehicle_fields)
qed

theorem create_offline_is_local_witness:
  "addVehicle_v100 \<in> {addVehicle_v100, addVehicle_v104}
   \<and> APP (freshWorld\<lparr>isOnline := False\<rparr>) \<and> \<not> quotaExceeded (freshWorld\<lparr>isOnline := False\<rparr>)
   \<and> \<not> isOnline (freshWorld\<lparr>isOnline := False\<rparr>)
   \<and> [''make'' \<mapsto> JStr ''Ford'', ''model'' \<mapsto> JStr ''F150'', ''year'' \<mapsto> JNum 2020] ''vehicle_id'' = None
   \<and> fst (start (addVehicle_v100 deployment ''lx3k9q'' ''2025-08-19T10:00:00.000Z'' ''2025-08-19T10:00:00.001Z''
               [''make'' \<mapsto> JStr ''Ford'', ''model'' \<mapsto> JStr ''F150'', ''year'' \<mapsto> JNum 2020])
             (freshWorld\<lparr>isOnline := False\<rparr>))
       = Return (newVehicle ''lx3k9q'' [''make'' \<mapsto> JStr ''Ford'', ''model'' \<mapsto> JStr ''F150'', ''year'' \<mapsto> JNum 2020]
                   ''2025-08-19T10:00:00.000Z'' ''2025-08-19T10:00:00.001Z'')
   \<and> getFromStorage
         (snd (start (addVehicle_v100 deployment ''lx3k9q'' ''2025-08-19T10:00:00.000Z'' ''2025-08-19T10:00:00.001Z''
               [''make'' \<mapsto> JStr ''Ford'', ''model'' \<mapsto> JStr ''F150'', ''year'' \<mapsto> JNum 2020])
             (freshWorld\<lparr>isOnline := False\<rparr>))) ''vehicles''
       = Some [newVehicle ''lx3k9q'' [''make'' \<mapsto> JStr ''Ford'', ''model'' \<mapsto> JStr ''F150'', ''year'' \<mapsto> JNum 2020]
                   ''2025-08-19T10:00:00.000Z'' ''2025-08-19T10:00:00.001Z'']
   \<and> fetchLog
         (snd (start (addVehicle_v100 deployment ''lx3k9q'' ''2025-08-19T10:00:00.000Z'' ''2025-08-19T10:00:00.001Z''
               [''make'' \<mapsto> JStr ''Ford'', ''model'' \<mapsto> JStr ''F150'', ''year'' \<mapsto> JNum 2020])
             (freshWorld\<lparr>isOnline := False\<rparr>))) = []
   \<and> newVehicle ''lx3k9q'' [''make'' \<mapsto> JStr ''Ford'', ''model'' \<mapsto> JStr ''F150'', ''year'' \<mapsto> JNum 2020]
        ''2025-08-19T10:00:00.000Z'' ''2025-08-19T10:00:00.001Z'' ''vehicle_id'' = Some (JStr ''lx3k9q'')"
proof -
  define w where "w = freshWorld\<lparr>isOnline := False\<rparr>"
  define payload :: jsobj where
    "payload = [''make'' \<mapsto> JStr ''Ford'', ''model'' \<mapsto> JStr ''F150'', ''year'' \<mapsto> JNum 2020]"
  have mem: "addVehicle_v100 \<in> {addVehicle_v100, addVehicle_v104}" by (rule insertI1)
  have flags: "APP w" "\<not> quotaExceeded w" "\<not> isOnline w" "fetchLog w = []"
    "storedOrEmpty w ''vehicles'' = []"
    by (simp_all add: w_def freshWorld_def storedOrEmpty_def getFromStorage_def)
  have noid: "payload ''vehicle_id'' = None" by (simp add: payload_def)
  note inst = create_offline_is_local[OF mem flags(1,2) refl,
      of deployment "''lx3k9q''" "''2025-08-19T10:00:00.000Z''" "''2025-08-19T10:00:00.001Z''" payload]
  have "fst (start (addVehicle_v100 deployment ''lx3k9q'' ''2025-08-19T10:00:00.000Z''
                      ''2025-08-19T10:00:00.001Z'' payload) w)
          = Return (newVehicle ''lx3k9q'' payload ''2025-08-19T10:00:00.000Z'' ''2025-08-19T10:00:00.001Z'')
        \<and> getFromStorage (snd (start (addVehicle_v100 deployment ''lx3k9q'' ''2025-08-19T10:00:00.000Z''
                      ''2025-08-19T10:00:00.001Z'' payload) w)) ''vehicles''
          = Some [newVehicle ''lx3k9q'' payload ''2025-08-19T10:00:00.000Z'' ''2025-08-19T10:00:00.001Z'']
        \<and> fetchLog (snd (start (addVehicle_v100 deployment ''lx3k9q'' ''2025-08-19T10:00:00.000Z''
                      ''2025-08-19T10:00:00.001Z'' payload) w)) = []
        \<and> newVehicle ''lx3k9q'' payload ''2025-08-19T10:00:00.000Z'' ''2025-08-19T10:00:00.001Z''
             ''vehicle_id'' = Some (JStr ''lx3k9q'')"
    using inst flags(3,4,5) noid by auto
  then show ?thesis
    using mem flags(1,2,3) noid unfolding w_def payload_def by simp
qed

text \<open>
  C9. On a sheet with a header row, each of the four appends returns a record whose id
  field is the UUID the server generated, whatever the payload says, and appends one row
  that holds that UUID in the id column. So whenever the generated UUID differs from the
  id the client supplied, the remote copy has another id than the client's.
\<close>

theorem append_assigns_server_id:
  assumes "(result, idField) \<in>
             {(addVehicle_gs sh payload uuid created updated, ''vehicle_id''),
              (addMaintenance sh payload uuid created, ''log_id''),
              (addReceipt sh payload uuid created, ''receipt_id''),
              (addReminder sh payload uuid created, ''reminder_id'')}"
      and "headers sh \<noteq> []"
  shows "\<exists>record sh'. result = Inr (record, sh')
           \<and> record idField = Some (JStr uuid)
           \<and> headers sh' = headers sh \<and> butlast (rows sh') = rows sh
           \<and> (idField \<in> set (headers sh) \<longrightarrow>
                rowObject (headers sh') (last (rows sh')) idField = Some (JStr uuid))
           \<and> (payload idField \<noteq> Some (JStr uuid) \<longrightarrow>
                record idField \<noteq> payload idField
                \<and> (idField \<in> set (headers sh) \<longrightarrow>
                     rowObject (headers sh') (last (rows sh')) idField \<noteq> payload idField))"
proof -
  from assms(1) obtain entry where
    res: "result = storeRecord sh entry" and id: "entry idField = Some (JStr uuid)"
    by (auto simp: addVehicle_gs_def addMaintenance_def addReceipt_def addReminder_def)
  let ?cells = "map (\<lambda>header. orElse (entry header) (JStr '''')) (headers sh)"
  let ?sh' = "sh\<lparr>rows := rows sh @ [?cells]\<rparr>"
  have r: "result = Inr (entry, ?sh')"
    unfolding res using assms(2) by (rule storeRecord_result)
  have stored: "rowObject (headers ?sh') (last (rows ?sh')) idField = Some (JStr uuid)"
    if "idField \<in> set (headers sh)"
    using that id by (simp add: rowObject_map orElse_same)
  show ?thesis
    using r id stored by (intro exI[of _ entry] exI[of _ ?sh']) auto
qed

theorem append_assigns_server_id_witness:
  "(addVehicle_gs twoVehicles [''vehicle_id'' \<mapsto> JStr ''lx3k9q'', ''make'' \<mapsto> JStr ''Kia'']
       ''0f8fad5b-d9cb-469f-a165-70867728950e'' ''2025-08-19T10:00:00.000Z'' ''2025-08-19T10:00:00.001Z'',
     ''vehicle_id'') \<in>
     {(addVehicle_gs twoVehicles [''vehicle_id'' \<mapsto> JStr ''lx3k9q'', ''make'' \<mapsto> JStr ''Kia'']
         ''0f8fad5b-d9cb-469f-a165-70867728950e'' ''2025-08-19T10:00:00.000Z'' ''2025-08-19T10:00:00.001Z'',
       ''vehicle_id''),
      (addMaintenance twoVehicles [''vehicle_id'' \<mapsto> JStr ''lx3k9q'', ''make'' \<mapsto> JStr ''Kia'']
         ''0f8fad5b-d9cb-469f-a165-70867728950e'' ''2025-08-19T10:00:00.000Z'', ''log_id''),
      (addReceipt twoVehicles [''vehicle_id'' \<mapsto> JStr ''lx3k9q'', ''make'' \<mapsto> JStr ''Kia'']
         ''0f8fad5b-d9cb-469f-a165-70867728950e'' ''2025-08-19T10:00:00.000Z'', ''receipt_id''),
      (addReminder twoVehicles [''vehicle_id'' \<mapsto> JStr ''lx3k9q'', ''make'' \<mapsto> JStr ''Kia'']
         ''0f8fad5b-d9cb-469f-a165-70867728950e'' ''2025-08-19T10:00:00.000Z'', ''reminder_id'')}
   \<and> headers twoVehicles \<noteq> []
   \<and> ''vehicle_id'' \<in> set (headers twoVehicles)
   \<and> [''vehicle_id'' \<mapsto> JStr ''lx3k9q'', ''make'' \<mapsto> JStr ''Kia''] ''vehicle_id''
        \<noteq> Some (JStr ''0f8fad5b-d9cb-469f-a165-70867728950e'')
   \<and> (\<exists>record sh'.
         addVehicle_gs twoVehicles [''vehicle_id'' \<mapsto> JStr ''lx3k9q'', ''make'' \<mapsto> JStr ''Kia'']
           ''0f8fad5b-d9cb-469f-a165-70867728950e'' ''2025-08-19T10:00:00.000Z'' ''2025-08-19T10:00:00.001Z''
           = Inr (record, sh')
         \<and> record ''vehicle_id'' = Some (JStr ''0f8fad5b-d9cb-469f-a165-70867728950e'')
         \<and> rowObject (headers sh') (last (rows sh')) ''vehicle_id''
             = Some (JStr ''0f8fad5b-d9cb-469f-a165-70867728950e'')
         \<and> record ''vehicle_id'' \<noteq> Some (JStr ''lx3k9q'')
         \<and> rowObject (headers sh') (last (rows sh')) ''vehicle_id'' \<noteq> Some (JStr ''lx3k9q''))"
proof -
  define payload :: jsobj where "payload = [''vehicle_id'' \<mapsto> JStr ''lx3k9q'', ''make'' \<mapsto> JStr ''Kia'']"
  define uuid where "uuid = ''0f8fad5b-d9cb-469f-a165-70867728950e''"
  define result where
    "result = addVehicle_gs twoVehicles payload uuid ''2025-08-19T10:00:00.000Z'' ''2025-08-19T10:00:00.001Z''"
  have mem: "(result, ''vehicle_id'') \<in>
     {(addVehicle_gs twoVehicles payload uuid ''2025-08-19T10:00:00.000Z'' ''2025-08-19T10:00:00.001Z'',
       ''vehicle_id''),
      (addMaintenance twoVehicles payload uuid ''2025-08-19T10:00:00.000Z'', ''log_id''),
      (addReceipt twoVehicles payload uuid ''2025-08-19T10:00:00.000Z'', ''receipt_id''),
      (addReminder twoVehicles payload uuid ''2025-08-19T10:00:00.000Z'', ''reminder_id'')}"
    unfolding result_def by (rule insertI1)
  have hs: "headers twoVehicles \<noteq> []" "''vehicle_id'' \<in> set (headers twoVehicles)"
    by (simp_all add: twoVehicles_def)
  have fresh: "payload ''vehicle_id'' \<noteq> Some (JStr uuid)" "payload ''vehicle_id'' = Some (JStr ''lx3k9q'')"
    by (simp_all add: payload_def uuid_def)
  from append_assigns_server_id[OF mem hs(1)] hs(2) fresh
  have "\<exists>record sh'. result = Inr (record, sh')
         \<and> record ''vehicle_id'' = Some (JStr uuid)
         \<and> rowObject (headers sh') (last (rows sh')) ''vehicle_id'' = Some (JStr uuid)
         \<and> record ''vehicle_id'' \<noteq> Some (JStr ''lx3k9q'')
         \<and> rowObject (headers sh') (last (rows sh')) ''vehicle_id'' \<noteq> Some (JStr ''lx3k9q'')"
    by auto
  then show ?thesis
    using mem hs fresh(1) unfolding result_def payload_def uuid_def by blast
qed

text \<open>
  C10. Membership is decided against the ids of the local list as it was: the merged list
  starts with one entry per local record, at its position and with its id and fields
  (possibly overwritten), and continues with exactly the remote records whose id no local
  record has, in remote order. Two remote records sharing such an id are both appended.
\<close>

theorem merge_membership_by_original_ids:
  "list_all2 (\<lambda>l m. m idField = l idField \<and> dom l \<subseteq> dom m) localData
     (take (length localData) (mergeData localData remoteData idField))
   \<and> drop (length localData) (mergeData localData remoteData idField)
       = filter (\<lambda>r. r idField \<notin> set (map (\<lambda>item. item idField) localData)) remoteData
   \<and> (r1 idField = r2 idField \<and> r1 idField \<notin> set (map (\<lambda>item. item idField) localData)
        \<longrightarrow> mergeData localData [r1, r2] idField = localData @ [r1, r2])"
proof -
  let ?S = "set (map (\<lambda>item. item idField) localData)"
  let ?U = "overlaid idField (filter (\<lambda>r. r idField \<in> ?S) remoteData) localData"
  have m: "mergeData localData remoteData idField = ?U @ filter (\<lambda>r. r idField \<notin> ?S) remoteData"
    by (rule mergeData_overlaid)
  have len: "length ?U = length localData" by (rule length_overlaid)
  have "take (length localData) (mergeData localData remoteData idField) = ?U"
    unfolding m using len by simp
  then have a: "list_all2 (\<lambda>l m. m idField = l idField \<and> dom l \<subseteq> dom m) localData
     (take (length localData) (mergeData localData remoteData idField))"
    by (simp add: overlaid_keeps)
  have b: "drop (length localData) (mergeData localData remoteData idField)
       = filter (\<lambda>r. r idField \<notin> ?S) remoteData"
    unfolding m using len by simp
  have c: "mergeData localData [r1, r2] idField = localData @ [r1, r2]"
    if "r1 idField = r2 idField" "r1 idField \<notin> ?S"
    using that by (simp add: mergeData_def mergeItem_def)
  from a b c show ?thesis by blast
qed

theorem merge_membership_by_original_ids_witness:
  "[''id'' \<mapsto> JNum 2, ''a'' \<mapsto> JStr ''x''] ''id'' = [''id'' \<mapsto> JNum 2, ''a'' \<mapsto> JStr ''y''] ''id''
   \<and> [''id'' \<mapsto> JNum 2, ''a'' \<mapsto> JStr ''x''] ''id'' \<notin> set (map (\<lambda>item. item ''id'') [[''id'' \<mapsto> JNum 1]])
   \<and> mergeData [[''id'' \<mapsto> JNum 1]]
        [[''id'' \<mapsto> JNum 2, ''a'' \<mapsto> JStr ''x''], [''id'' \<mapsto> JNum 2, ''a'' \<mapsto> JStr ''y'']] ''id''
      = [[''id'' \<mapsto> JNum 1], [''id'' \<mapsto> JNum 2, ''a'' \<mapsto> JStr ''x''], [''id'' \<mapsto> JNum 2, ''a'' \<mapsto> JStr ''y'']]
   \<and> \<not> distinct (map (\<lambda>item. item ''id'') (mergeData [[''id'' \<mapsto> JNum 1]]
        [[''id'' \<mapsto> JNum 2, ''a'' \<mapsto> JStr ''x''], [''id'' \<mapsto> JNum 2, ''a'' \<mapsto> JStr ''y'']] ''id''))"
  using merge_membership_by_original_ids[of "''id''" "[[''id'' \<mapsto> JNum 1]]" "[]"
      "[''id'' \<mapsto> JNum 2, ''a'' \<mapsto> JStr ''x'']" "[''id'' \<mapsto> JNum 2, ''a'' \<mapsto> JStr ''y'']"]
  by simp

end
